theory Spec2Isabelle
  imports Main "HOL-Library.Word"
begin

unbundle bit_operations_syntax

section \<open>xiprd: a RAM-backed block driver\<close>

text \<open>
  A shallow embedding of \<^verbatim>\<open>xiprd.c\<close> on an LP64 kernel: pointers, \<^verbatim>\<open>u_long\<close>,
  \<^verbatim>\<open>u64\<close>, \<^verbatim>\<open>sector_t\<close> and \<^verbatim>\<open>loff_t\<close> are 64-bit words, \<^verbatim>\<open>int\<close> and
  \<^verbatim>\<open>unsigned int\<close> are 32-bit words, and arithmetic on them wraps around.
  Kernel memory is one flat byte-addressed space, so that the pointer arithmetic
  \<^verbatim>\<open>dev->ramdisk + offset\<close> and the two \<^verbatim>\<open>memcpy\<close> calls read as in the source.
  The spin lock taken around the copy loop has no effect on a single request and is
  not modelled.
\<close>

subsection \<open>Constants of the module\<close>

definition BD_NAME_MAX :: nat where
  "BD_NAME_MAX = 32"

definition DRV_NAME :: string where
  "DRV_NAME = ''xiprd''"

definition NUM_MINORS :: int where
  "NUM_MINORS = 16"

definition SECTOR_SHIFT :: nat where
  "SECTOR_SHIFT = 9"

definition SECTOR_SIZE :: "32 word" where
  "SECTOR_SIZE = push_bit SECTOR_SHIFT 1"

definition KERNEL_SHIFT :: nat where
  "KERNEL_SHIFT = 9"

definition ENOMEM :: int where
  "ENOMEM = 12"

subsection \<open>Memory\<close>

type_synonym addr = "64 word"
type_synonym memory = "addr \<Rightarrow> 8 word"

text \<open>
  \<^verbatim>\<open>memcpy(dest, src, n)\<close>: byte \<open>k\<close> of the destination, for \<open>k < n\<close>, receives
  byte \<open>k\<close> of the source as it was before the call; every other byte keeps its value.
  A byte \<open>a\<close> lies in the destination when its distance \<open>a - dest\<close> is below \<open>n\<close>.
\<close>

definition memcpy :: "addr \<Rightarrow> addr \<Rightarrow> nat \<Rightarrow> memory \<Rightarrow> memory" where
  "memcpy dest src n m = (\<lambda>a. if unat (a - dest) < n then m (src + (a - dest)) else m a)"

text \<open>The \<open>n\<close> addresses from \<open>p\<close> on, and the bytes stored there.\<close>

definition region :: "addr \<Rightarrow> nat \<Rightarrow> addr set" where
  "region p n = (\<lambda>k. p + of_nat k) ` {..<n}"

definition bytes_at :: "memory \<Rightarrow> addr \<Rightarrow> nat \<Rightarrow> 8 word list" where
  "bytes_at m p n = map (\<lambda>k. m (p + of_nat k)) [0..<n]"

subsection \<open>Data structures\<close>

text \<open>
  \<^verbatim>\<open>struct request_queue\<close> and \<^verbatim>\<open>struct gendisk\<close> belong to the kernel; the
  records keep the fields the module writes. \<^verbatim>\<open>queuedata\<close> and \<^verbatim>\<open>private_data\<close>
  only ever hold the address of the one global device, so a flag records whether they
  were set. Pointers to kernel objects are \<open>None\<close> when \<^verbatim>\<open>NULL\<close>.
\<close>

record request_queue =
  make_request_fn_set :: bool
  logical_block_size :: "32 word"
  queuedata_set :: bool

record gendisk =
  disk_name :: string
  gd_major :: int
  first_minor :: int
  fops_set :: bool
  private_data_set :: bool
  gd_queue :: "request_queue option"
  capacity :: "64 word"

record xiprd_dev =
  major :: int
  name :: string
  disk :: "gendisk option"
  size_bytes :: "64 word"
  queue :: "request_queue option"
  ramdisk :: addr

text \<open>
  The module's globals: the two parameters, the single device and \<^verbatim>\<open>kernel_sectors\<close>.
\<close>

record xiprd_module =
  sector_size :: "32 word"
  num_sectors :: "64 word"
  globaldev :: xiprd_dev
  kernel_sectors :: "64 word"

definition default_sector_size :: "32 word" where
  "default_sector_size = SECTOR_SIZE"

definition default_num_sectors :: "64 word" where
  "default_num_sectors = drop_bit SECTOR_SHIFT (1024 * 1024 * 1024)"

text \<open>
  A block I/O request. \<^verbatim>\<open>bio_for_each_segment\<close> walks \<open>bi_io_vec\<close> in order. The
  bytes of a segment are the \<^verbatim>\<open>bv_len\<close> bytes that start \<^verbatim>\<open>bv_offset\<close> bytes into
  the page \<^verbatim>\<open>bv_page\<close>; the module reads the page and the length only.
  The address at which \<^verbatim>\<open>kmap_atomic\<close> maps a page is the kernel's choice and a
  parameter \<open>kmap\<close> of the model.
\<close>

datatype data_dir = READ | WRITE

type_synonym page = nat

record bio_vec =
  bv_page :: page
  bv_len :: "32 word"
  bv_offset :: "32 word"

record bio =
  bi_sector :: "64 word"
  bio_data_dir :: data_dir
  bi_io_vec :: "bio_vec list"

record hd_geometry =
  heads :: "8 word"
  sectors :: "8 word"
  cylinders :: "16 word"
  start :: "64 word"

subsection \<open>Serving a request\<close>

text \<open>The body of the segment loop: one copy, then \<^verbatim>\<open>offset += bvec->bv_len\<close>.\<close>

definition copy_segment ::
  "(page \<Rightarrow> addr) \<Rightarrow> xiprd_dev \<Rightarrow> data_dir \<Rightarrow> bio_vec \<Rightarrow> 64 word \<times> memory \<Rightarrow> 64 word \<times> memory"
where
  "copy_segment kmap dev dir bvec = (\<lambda>(offset, m).
     let dest = ramdisk dev + offset;
         buf = kmap (bv_page bvec);
         m' = (if dir = WRITE then memcpy dest buf (unat (bv_len bvec)) m
               else memcpy buf dest (unat (bv_len bvec)) m)
     in (offset + ucast (bv_len bvec), m'))"

fun copy_segments ::
  "(page \<Rightarrow> addr) \<Rightarrow> xiprd_dev \<Rightarrow> data_dir \<Rightarrow> bio_vec list \<Rightarrow> 64 word \<times> memory \<Rightarrow> 64 word \<times> memory"
where
  "copy_segments kmap dev dir [] s = s"
| "copy_segments kmap dev dir (bvec # bvecs) s =
     copy_segments kmap dev dir bvecs (copy_segment kmap dev dir bvec s)"

text \<open>Line 78: the byte offset of a kernel sector.\<close>

definition sector_offset :: "bio \<Rightarrow> 64 word" where
  "sector_offset bi = push_bit KERNEL_SHIFT (bi_sector bi)"

text \<open>
  What a call leaves behind: the value returned, the status given to \<^verbatim>\<open>bio_endio\<close>
  and the memory.
\<close>

record completion =
  ret :: int
  endio_error :: int
  mem :: memory

text \<open>
  \<^verbatim>\<open>xiprd_make_request\<close>. The queue's \<^verbatim>\<open>queuedata\<close> is the global device, read here
  from the module state.
\<close>

definition xiprd_make_request :: "(page \<Rightarrow> addr) \<Rightarrow> xiprd_module \<Rightarrow> bio \<Rightarrow> memory \<Rightarrow> completion" where
  "xiprd_make_request kmap st bi m =
     (let dev = globaldev st;
          offset = sector_offset bi;
          (offset', m') = copy_segments kmap dev (bio_data_dir bi) (bi_io_vec bi) (offset, m)
      in \<lparr>ret = 0, endio_error = 0, mem = m'\<rparr>)"

subsection \<open>Geometry\<close>

text \<open>
  \<^verbatim>\<open>xiprd_getgeo\<close>, on the disk \<^verbatim>\<open>bdev->bd_disk\<close>: \<^verbatim>\<open>get_capacity\<close> reads what
  \<^verbatim>\<open>set_capacity\<close> stored, and each assignment converts to the field's width.
\<close>

definition xiprd_getgeo :: "gendisk \<Rightarrow> hd_geometry \<Rightarrow> int \<times> hd_geometry" where
  "xiprd_getgeo bd_disk geo =
     (0, geo\<lparr>heads := ucast (push_bit 6 1 :: 32 word),
             sectors := ucast (push_bit 5 1 :: 32 word),
             cylinders := ucast (drop_bit 11 (capacity bd_disk))\<rparr>)"

subsection \<open>Initialisation\<close>

text \<open>
  The kernel services \<^verbatim>\<open>xiprd_init\<close> calls belong to the host. Their outcomes are
  the parameter \<open>host\<close>: the address \<^verbatim>\<open>vmalloc\<close> returns for a size (0 is
  \<^verbatim>\<open>NULL\<close>), the value of \<^verbatim>\<open>register_blkdev\<close> (a major number, or a negative
  error), and whether \<^verbatim>\<open>alloc_disk\<close> and \<^verbatim>\<open>blk_alloc_queue\<close> return an object.
  Every call is recorded, in order, with its arguments and its result.
\<close>

record host =
  vmalloc_ret :: "64 word \<Rightarrow> addr"
  register_blkdev_ret :: int
  alloc_disk_ok :: bool
  blk_alloc_queue_ok :: bool

datatype host_call =
    Vmalloc "64 word" addr
  | RegisterBlkdev int string int
  | AllocDisk int bool
  | BlkAllocQueue bool
  | AddDisk
  | Vfree addr
  | DelGendisk
  | PutDisk
  | BlkCleanupQueue bool
  | UnregisterBlkdev int string

text \<open>The device after \<^verbatim>\<open>memset(dev, 0, ...)\<close>, and the objects the host hands out.\<close>

definition zero_dev :: xiprd_dev where
  "zero_dev = \<lparr>major = 0, name = [], disk = None, size_bytes = 0, queue = None, ramdisk = 0\<rparr>"

definition new_gendisk :: gendisk where
  "new_gendisk = \<lparr>disk_name = [], gd_major = 0, first_minor = 0, fops_set = False,
     private_data_set = False, gd_queue = None, capacity = 0\<rparr>"

definition new_queue :: request_queue where
  "new_queue = \<lparr>make_request_fn_set = False, logical_block_size = 0, queuedata_set = False\<rparr>"

text \<open>
  The code at label \<^verbatim>\<open>err_out\<close>: the calls it makes for a device in a given state.
  \<^verbatim>\<open>blk_cleanup_queue\<close> is recorded with whether the queue pointer it is given is
  non-\<^verbatim>\<open>NULL\<close>.
\<close>

definition err_out :: "xiprd_dev \<Rightarrow> host_call list" where
  "err_out dev =
     (if ramdisk dev \<noteq> 0 then [Vfree (ramdisk dev)] else []) @
     (case disk dev of
        None \<Rightarrow> []
      | Some d \<Rightarrow> [DelGendisk, PutDisk, BlkCleanupQueue (gd_queue d \<noteq> None),
                   UnregisterBlkdev (major dev) (name dev)])"

definition init_fail ::
  "int \<Rightarrow> xiprd_module \<Rightarrow> xiprd_dev \<Rightarrow> host_call list \<Rightarrow> int \<times> xiprd_module \<times> host_call list"
where
  "init_fail rc st dev log = (rc, st\<lparr>globaldev := dev\<rparr>, log @ err_out dev)"

definition xiprd_init :: "host \<Rightarrow> xiprd_module \<Rightarrow> int \<times> xiprd_module \<times> host_call list" where
  "xiprd_init h st =
     (let dev0 = zero_dev\<lparr>name := take BD_NAME_MAX DRV_NAME\<rparr>;
          dev1 = dev0\<lparr>size_bytes := num_sectors st * scast (sector_size st)\<rparr>;
          dev2 = dev1\<lparr>ramdisk := vmalloc_ret h (size_bytes dev1)\<rparr>;
          log1 = [Vmalloc (size_bytes dev1) (ramdisk dev2)]
      in if ramdisk dev2 = 0 then init_fail (- ENOMEM) st dev2 log1
      else
        let rc = register_blkdev_ret h;
            log2 = log1 @ [RegisterBlkdev 0 (name dev2) rc]
        in if rc < 0 then init_fail rc st dev2 log2
        else
          let dev3 = dev2\<lparr>disk := (if alloc_disk_ok h then Some new_gendisk else None)\<rparr>;
              log3 = log2 @ [AllocDisk NUM_MINORS (alloc_disk_ok h)]
          in case disk dev3 of
               None \<Rightarrow> init_fail (- ENOMEM) st dev3 log3
             | Some d0 \<Rightarrow>
                 let d1 = d0\<lparr>disk_name := take (BD_NAME_MAX - 1) (name dev3 @ ''0''),
                             gd_major := major dev3,
                             first_minor := 0 * NUM_MINORS,
                             fops_set := True,
                             private_data_set := True,
                             gd_queue := (if blk_alloc_queue_ok h then Some new_queue else None)\<rparr>;
                     log4 = log3 @ [BlkAllocQueue (blk_alloc_queue_ok h)]
                 in case gd_queue d1 of
                      None \<Rightarrow> init_fail (- ENOMEM) st (dev3\<lparr>disk := Some d1\<rparr>) log4
                    | Some q0 \<Rightarrow>
                        let q1 = q0\<lparr>make_request_fn_set := True,
                                    logical_block_size := sector_size st,
                                    queuedata_set := True\<rparr>;
                            ks = drop_bit KERNEL_SHIFT (num_sectors st * scast (sector_size st));
                            d2 = d1\<lparr>gd_queue := Some q1, capacity := ks\<rparr>
                        in (0, st\<lparr>globaldev := dev3\<lparr>disk := Some d2\<rparr>, kernel_sectors := ks\<rparr>,
                            log4 @ [AddDisk]))"

text \<open>
  Bookkeeping over a log: the resources a run acquired (calls that returned an
  object) and the ones it gave back, each in call order.
\<close>

datatype resource = Store | Driver | Disk | Queue

fun acquired :: "host_call list \<Rightarrow> resource list" where
  "acquired [] = []"
| "acquired (Vmalloc n p # cs) = (if p \<noteq> 0 then [Store] else []) @ acquired cs"
| "acquired (RegisterBlkdev m nm r # cs) = (if 0 \<le> r then [Driver] else []) @ acquired cs"
| "acquired (AllocDisk n ok # cs) = (if ok then [Disk] else []) @ acquired cs"
| "acquired (BlkAllocQueue ok # cs) = (if ok then [Queue] else []) @ acquired cs"
| "acquired (c # cs) = acquired cs"

fun released :: "host_call list \<Rightarrow> resource list" where
  "released [] = []"
| "released (Vfree p # cs) = Store # released cs"
| "released (PutDisk # cs) = Disk # released cs"
| "released (BlkCleanupQueue q # cs) = Queue # released cs"
| "released (UnregisterBlkdev m nm # cs) = Driver # released cs"
| "released (c # cs) = released cs"

subsection \<open>Vocabulary of the properties\<close>

text \<open>
  The bytes a request addresses: its total length; the memory the module copies for a
  segment, \<^verbatim>\<open>bv_len\<close> bytes from the address at which the segment's page is mapped;
  the bytes found there for a segment list, in segment order; the request's data, which
  for each segment lie \<^verbatim>\<open>bv_offset\<close> bytes further on; and the memory of the backing
  store, \<^verbatim>\<open>dev->size\<close> bytes from \<^verbatim>\<open>dev->ramdisk\<close>.
\<close>

definition segments_len :: "bio_vec list \<Rightarrow> nat" where
  "segments_len bvecs = sum_list (map (\<lambda>b. unat (bv_len b)) bvecs)"

definition buf_region :: "(page \<Rightarrow> addr) \<Rightarrow> bio_vec \<Rightarrow> addr set" where
  "buf_region kmap b = region (kmap (bv_page b)) (unat (bv_len b))"

definition page_start_bytes :: "(page \<Rightarrow> addr) \<Rightarrow> memory \<Rightarrow> bio_vec list \<Rightarrow> 8 word list" where
  "page_start_bytes kmap m bvecs =
     concat (map (\<lambda>b. bytes_at m (kmap (bv_page b)) (unat (bv_len b))) bvecs)"

definition bio_data :: "(page \<Rightarrow> addr) \<Rightarrow> memory \<Rightarrow> bio_vec list \<Rightarrow> 8 word list" where
  "bio_data kmap m bvecs =
     concat (map (\<lambda>b. bytes_at m (kmap (bv_page b) + ucast (bv_offset b)) (unat (bv_len b))) bvecs)"

definition store_region :: "xiprd_dev \<Rightarrow> addr set" where
  "store_region dev = region (ramdisk dev) (unat (size_bytes dev))"

text \<open>No two buffers of a segment list share a byte.\<close>

fun disjoint_bufs :: "(page \<Rightarrow> addr) \<Rightarrow> bio_vec list \<Rightarrow> bool" where
  "disjoint_bufs kmap [] = True"
| "disjoint_bufs kmap (b # bs) =
     ((\<forall>c \<in> set bs. buf_region kmap b \<inter> buf_region kmap c = {}) \<and> disjoint_bufs kmap bs)"

text \<open>The number of sectors a geometry describes.\<close>

definition chs_sectors :: "hd_geometry \<Rightarrow> nat" where
  "chs_sectors geo = unat (heads geo) * unat (sectors geo) * unat (cylinders geo)"

subsection \<open>Copies outside the store\<close>

text \<open>
  The store is one \<^verbatim>\<open>vmalloc\<close> area of \<^verbatim>\<open>dev->size\<close> bytes, and C gives no meaning
  to a \<^verbatim>\<open>memcpy\<close> that reaches outside it. \<open>run_segments\<close> is the segment loop
  under that rule: it copies segment after segment as \<open>copy_segments\<close> does and stops
  at the first segment whose store side does not lie within the store, with the memory
  as the earlier copies left it (\<open>Inl\<close>); what the call does from there on is
  undefined. A run that reaches the end of the loop completes as
  \<^verbatim>\<open>xiprd_make_request\<close> does, with \<^verbatim>\<open>bio_endio(bi, 0)\<close> and \<^verbatim>\<open>return 0\<close>.
\<close>

fun run_segments ::
  "(page \<Rightarrow> addr) \<Rightarrow> xiprd_dev \<Rightarrow> data_dir \<Rightarrow> bio_vec list \<Rightarrow> 64 word \<times> memory
     \<Rightarrow> memory + 64 word \<times> memory"
where
  "run_segments kmap dev dir [] s = Inr s"
| "run_segments kmap dev dir (bvec # bvecs) s =
     (if unat (fst s) + unat (bv_len bvec) \<le> unat (size_bytes dev)
      then run_segments kmap dev dir bvecs (copy_segment kmap dev dir bvec s)
      else Inl (snd s))"

datatype outcome = Completed completion | OutOfStore memory

definition make_request_outcome :: "(page \<Rightarrow> addr) \<Rightarrow> xiprd_module \<Rightarrow> bio \<Rightarrow> memory \<Rightarrow> outcome" where
  "make_request_outcome kmap st bi m =
     (case run_segments kmap (globaldev st) (bio_data_dir bi) (bi_io_vec bi) (sector_offset bi, m) of
        Inl m' \<Rightarrow> OutOfStore m'
      | Inr (offset', m') \<Rightarrow> Completed \<lparr>ret = 0, endio_error = 0, mem = m'\<rparr>)"

subsection \<open>Device sectors and kernel sectors\<close>


subsection \<open>Concrete configurations\<close>

text \<open>
  The module as loaded with its default parameters (1 GiB in 512-byte sectors), a host
  on which every allocation succeeds, and a geometry buffer.
\<close>

definition default_module :: xiprd_module where
  "default_module = \<lparr>sector_size = default_sector_size, num_sectors = default_num_sectors,
     globaldev = zero_dev, kernel_sectors = 0\<rparr>"

definition good_host :: host where
  "good_host = \<lparr>vmalloc_ret = (\<lambda>n. if n = 0 then 0 else 0xFFFFC90000000000),
     register_blkdev_ret = 254, alloc_disk_ok = True, blk_alloc_queue_ok = True\<rparr>"

definition zero_geo :: hd_geometry where
  "zero_geo = \<lparr>heads = 0, sectors = 0, cylinders = 0, start = 0\<rparr>"

text \<open>The same module asked for \<open>2 ^ 27\<close> sectors of 512 bytes (64 GiB).\<close>

definition big_module :: xiprd_module where
  "big_module = default_module\<lparr>num_sectors := 2 ^ 27\<rparr>"

text \<open>
  A 1 MiB device (2048 sectors of 512 bytes) after a successful initialisation, and a
  device configured with 4096-byte sectors.
\<close>

definition small_module :: xiprd_module where
  "small_module = default_module\<lparr>num_sectors := 2048\<rparr>"

definition ready_module :: xiprd_module where
  "ready_module = fst (snd (xiprd_init good_host small_module))"



text \<open>
  Pages mapped one after the other, a memory in which page 512 holds the byte
  \<open>0xAB\<close> throughout and every other byte is 0, and some requests.
\<close>

definition linear_kmap :: "page \<Rightarrow> addr" where
  "linear_kmap p = 0xFFFF880000000000 + of_nat p * 4096"

definition ab_memory :: memory where
  "ab_memory = (\<lambda>a. if unat (a - linear_kmap 512) < 4096 then 0xAB else 0)"

definition write_bio :: bio where
  "write_bio = \<lparr>bi_sector = 0, bio_data_dir = WRITE,
     bi_io_vec = [\<lparr>bv_page = 512, bv_len = 512, bv_offset = 0\<rparr>]\<rparr>"

definition read_bio :: bio where
  "read_bio = \<lparr>bi_sector = 0, bio_data_dir = READ,
     bi_io_vec = [\<lparr>bv_page = 513, bv_len = 512, bv_offset = 0\<rparr>]\<rparr>"

definition overrun_bio :: bio where
  "overrun_bio = \<lparr>bi_sector = 2047, bio_data_dir = WRITE,
     bi_io_vec = [\<lparr>bv_page = 512, bv_len = 512, bv_offset = 0\<rparr>, \<lparr>bv_page = 512, bv_len = 512, bv_offset = 0\<rparr>]\<rparr>"


text \<open>
  A memory in which page 512 holds \<open>0xCD\<close> in its first 512 bytes and \<open>0xAB\<close> in
  the next 512, every other byte being 0, a write of those second 512 bytes to sector 0,
  and a read of sector 0 into bytes 512 to 1023 of page 513.
\<close>

definition cd_ab_memory :: memory where
  "cd_ab_memory = (\<lambda>a. if unat (a - linear_kmap 512) < 512 then 0xCD
     else if unat (a - linear_kmap 512) < 1024 then 0xAB else 0)"

definition offset_write_bio :: bio where
  "offset_write_bio = \<lparr>bi_sector = 0, bio_data_dir = WRITE,
     bi_io_vec = [\<lparr>bv_page = 512, bv_len = 512, bv_offset = 512\<rparr>]\<rparr>"

definition offset_read_bio :: bio where
  "offset_read_bio = \<lparr>bi_sector = 0, bio_data_dir = READ,
     bi_io_vec = [\<lparr>bv_page = 513, bv_len = 512, bv_offset = 512\<rparr>]\<rparr>"

text \<open>
  Hosts on which \<^verbatim>\<open>alloc_disk\<close>, respectively \<^verbatim>\<open>blk_alloc_queue\<close>, fails, and
  modules loaded with a zero and with a negative sector size.
\<close>

definition no_disk_host :: host where
  "no_disk_host = good_host\<lparr>alloc_disk_ok := False\<rparr>"

definition no_queue_host :: host where
  "no_queue_host = good_host\<lparr>blk_alloc_queue_ok := False\<rparr>"

definition zero_size_module :: xiprd_module where
  "zero_size_module = default_module\<lparr>sector_size := 0\<rparr>"

definition negative_size_module :: xiprd_module where
  "negative_size_module = default_module\<lparr>sector_size := - 512, num_sectors := - 2\<rparr>"

section \<open>Memory regions and the segment loop\<close>

lemma region_iff: "n \<le> 2 ^ 64 \<Longrightarrow> a \<in> region p n \<longleftrightarrow> unat (a - p) < n"
proof
  assume n: "n \<le> 2 ^ 64" and "a \<in> region p n"
  then obtain k where k: "k < n" "a = p + of_nat k" by (auto simp: region_def)
  then have "unat (a - p) = k mod 2 ^ 64" by (simp add: unat_of_nat)
  with k n show "unat (a - p) < n" by simp
next
  assume "unat (a - p) < n"
  moreover have "a = p + of_nat (unat (a - p))" by simp
  ultimately show "a \<in> region p n" unfolding region_def by blast
qed

lemma memcpy_frame: "a \<notin> region dest n \<Longrightarrow> memcpy dest src n m a = m a"
proof -
  assume a: "a \<notin> region dest n"
  have "\<not> unat (a - dest) < n"
  proof
    assume "unat (a - dest) < n"
    moreover have "a = dest + of_nat (unat (a - dest))" by simp
    ultimately have "a \<in> region dest n" unfolding region_def by blast
    with a show False by simp
  qed
  then show ?thesis by (simp add: memcpy_def)
qed

lemma memcpy_at: "k < n \<Longrightarrow> n \<le> 2 ^ 64 \<Longrightarrow> memcpy dest src n m (dest + of_nat k) = m (src + of_nat k)"
  by (simp add: memcpy_def unat_of_nat)

lemma bytes_at_memcpy: "n \<le> 2 ^ 64 \<Longrightarrow> bytes_at (memcpy dest src n m) dest n = bytes_at m src n"
  by (simp add: bytes_at_def memcpy_at)

lemma bytes_at_cong: "(\<And>a. a \<in> region p n \<Longrightarrow> m a = m' a) \<Longrightarrow> bytes_at m p n = bytes_at m' p n"
  by (auto simp: bytes_at_def region_def)

lemma region_add: "region p (n + k) = region p n \<union> region (p + of_nat n) k"
proof (rule set_eqI, rule iffI)
  fix a assume "a \<in> region p (n + k)"
  then obtain j where j: "j < n + k" "a = p + of_nat j" by (auto simp: region_def)
  show "a \<in> region p n \<union> region (p + of_nat n) k"
  proof (cases "j < n")
    case True with j show ?thesis by (auto simp: region_def)
  next
    case False
    then have "j - n < k" "a = p + of_nat n + of_nat (j - n)" using j by auto
    then have "a \<in> region (p + of_nat n) k" unfolding region_def by blast
    then show ?thesis by simp
  qed
next
  fix a assume "a \<in> region p n \<union> region (p + of_nat n) k"
  then show "a \<in> region p (n + k)"
  proof
    assume "a \<in> region p n"
    then show ?thesis by (auto simp: region_def)
  next
    assume "a \<in> region (p + of_nat n) k"
    then obtain j where j: "j < k" "a = p + of_nat n + of_nat j" by (auto simp: region_def)
    then have "n + j < n + k" "a = p + of_nat (n + j)" by auto
    then show ?thesis unfolding region_def by blast
  qed
qed

lemma region_adjacent_disjoint:
  assumes "n + k \<le> 2 ^ 64"
  shows "region p n \<inter> region (p + of_nat n) k = {}"
proof (rule ccontr)
  assume "region p n \<inter> region (p + of_nat n) k \<noteq> {}"
  then obtain a where a: "a \<in> region p n" "a \<in> region (p + of_nat n) k" by blast
  from a(1) assms have lt: "unat (a - p) < n" by (simp add: region_iff)
  from a(2) obtain j where j: "j < k" "a = p + of_nat n + of_nat j" by (auto simp: region_def)
  then have "a - p = of_nat (n + j)" by simp
  then have "unat (a - p) = (n + j) mod 2 ^ 64" by (simp only: unat_of_nat) simp
  moreover have "n + j < 2 ^ 64" using j(1) assms by simp
  ultimately have "unat (a - p) = n + j" by simp
  with lt show False by simp
qed

lemma bytes_at_append: "bytes_at m p (n + k) = bytes_at m p n @ bytes_at m (p + of_nat n) k"
proof (rule nth_equalityI)
  show "length (bytes_at m p (n + k)) = length (bytes_at m p n @ bytes_at m (p + of_nat n) k)"
    by (simp add: bytes_at_def)
next
  fix i assume "i < length (bytes_at m p (n + k))"
  then have i: "i < n + k" by (simp add: bytes_at_def)
  show "bytes_at m p (n + k) ! i = (bytes_at m p n @ bytes_at m (p + of_nat n) k) ! i"
  proof (cases "i < n")
    case True
    with i show ?thesis by (simp add: bytes_at_def nth_append)
  next
    case False
    then have "i - n < k" "of_nat i = (of_nat n + of_nat (i - n) :: 64 word)"
      using i by (simp_all flip: of_nat_add)
    with False i show ?thesis by (simp add: bytes_at_def nth_append add.assoc)
  qed
qed

lemma segments_len_Cons: "segments_len (b # bs) = unat (bv_len b) + segments_len bs"
  by (simp add: segments_len_def)

lemma bv_len_bound: "unat (bv_len b) \<le> 2 ^ 64"
proof -
  have "unat (bv_len b) < 2 ^ 32" using unsigned_less[of "bv_len b"] by simp
  then show ?thesis by simp
qed

lemma copy_segments_offset:
  "fst (copy_segments kmap dev dir bvecs (off, m)) = off + of_nat (segments_len bvecs)"
  by (induction bvecs arbitrary: off m) (simp_all add: copy_segment_def Let_def segments_len_def add.assoc)

lemma copy_segments_write_frame:
  "a \<notin> region (ramdisk dev + off) (segments_len bvecs) \<Longrightarrow>
   snd (copy_segments kmap dev WRITE bvecs (off, m)) a = m a"
proof (induction bvecs arbitrary: off m)
  case Nil
  then show ?case by simp
next
  case (Cons b bs)
  let ?n = "unat (bv_len b)"
  from Cons.prems have out: "a \<notin> region (ramdisk dev + off) ?n"
    "a \<notin> region (ramdisk dev + (off + ucast (bv_len b))) (segments_len bs)"
    by (simp_all add: segments_len_Cons region_add add.assoc)
  show ?case
    using Cons.IH[OF out(2)] out(1)
    by (simp add: copy_segment_def Let_def memcpy_frame)
qed

lemma copy_segments_read_frame:
  "a \<notin> (\<Union>b \<in> set bvecs. buf_region kmap b) \<Longrightarrow>
   snd (copy_segments kmap dev READ bvecs (off, m)) a = m a"
proof (induction bvecs arbitrary: off m)
  case Nil
  then show ?case by simp
next
  case (Cons b bs)
  from Cons.prems have out: "a \<notin> region (kmap (bv_page b)) (unat (bv_len b))"
    "a \<notin> (\<Union>b \<in> set bs. buf_region kmap b)"
    by (simp_all add: buf_region_def)
  show ?case
    using Cons.IH[OF out(2)] out(1)
    by (simp add: copy_segment_def Let_def memcpy_frame)
qed


lemma page_start_bytes_Cons:
  "page_start_bytes kmap m (b # bs) = bytes_at m (kmap (bv_page b)) (unat (bv_len b)) @ page_start_bytes kmap m bs"
  by (simp add: page_start_bytes_def)

lemma page_start_bytes_cong:
  "(\<And>a. a \<in> (\<Union>b \<in> set bvecs. buf_region kmap b) \<Longrightarrow> m a = m' a) \<Longrightarrow>
   page_start_bytes kmap m bvecs = page_start_bytes kmap m' bvecs"
proof (induction bvecs)
  case Nil
  then show ?case by (simp add: page_start_bytes_def)
next
  case (Cons b bs)
  have "bytes_at m (kmap (bv_page b)) (unat (bv_len b)) = bytes_at m' (kmap (bv_page b)) (unat (bv_len b))"
    by (rule bytes_at_cong) (simp add: Cons.prems buf_region_def)
  moreover have "page_start_bytes kmap m bs = page_start_bytes kmap m' bs"
    by (rule Cons.IH) (simp add: Cons.prems)
  ultimately show ?case by (simp add: page_start_bytes_Cons)
qed

lemma length_page_start_bytes: "length (page_start_bytes kmap m bvecs) = segments_len bvecs"
  by (induction bvecs) (simp_all add: page_start_bytes_def segments_len_def bytes_at_def)

lemma copy_segments_write_data:
  assumes "segments_len bvecs \<le> 2 ^ 64"
    and "\<forall>b \<in> set bvecs. buf_region kmap b \<inter> region (ramdisk dev + off) (segments_len bvecs) = {}"
  shows "bytes_at (snd (copy_segments kmap dev WRITE bvecs (off, m))) (ramdisk dev + off) (segments_len bvecs)
         = page_start_bytes kmap m bvecs"
  using assms
proof (induction bvecs arbitrary: off m)
  case Nil
  then show ?case by (simp add: segments_len_def page_start_bytes_def bytes_at_def)
next
  case (Cons b bs)
  let ?n = "unat (bv_len b)"
  let ?r = "segments_len bs"
  let ?d = "ramdisk dev + off"
  let ?m1 = "memcpy ?d (kmap (bv_page b)) ?n m"
  let ?m2 = "snd (copy_segments kmap dev WRITE bs (off + ucast (bv_len b), ?m1))"
  have step: "copy_segments kmap dev WRITE (b # bs) (off, m)
      = copy_segments kmap dev WRITE bs (off + ucast (bv_len b), ?m1)"
    by (simp add: copy_segment_def Let_def)
  have d2: "ramdisk dev + (off + ucast (bv_len b)) = ?d + of_nat ?n"
    by (simp add: add.assoc)
  from Cons.prems(1) have len: "?n + ?r \<le> 2 ^ 64" by (simp add: segments_len_Cons)
  have whole: "region ?d (?n + ?r) = region ?d ?n \<union> region (?d + of_nat ?n) ?r"
    by (rule region_add)
  have bufs: "\<forall>c \<in> set bs. buf_region kmap c \<inter> region (ramdisk dev + (off + ucast (bv_len b))) ?r = {}"
    using Cons.prems(2) by (auto simp: segments_len_Cons whole d2)
  have ih: "bytes_at ?m2 (?d + of_nat ?n) ?r = page_start_bytes kmap ?m1 bs"
    using Cons.IH[of "off + ucast (bv_len b)" ?m1] len bufs by (simp add: d2)
  have "page_start_bytes kmap ?m1 bs = page_start_bytes kmap m bs"
  proof (rule page_start_bytes_cong)
    fix a assume "a \<in> (\<Union>c \<in> set bs. buf_region kmap c)"
    then have "a \<notin> region ?d ?n"
      using Cons.prems(2) by (auto simp: segments_len_Cons whole)
    then show "?m1 a = m a" by (rule memcpy_frame)
  qed
  with ih have tail: "bytes_at ?m2 (?d + of_nat ?n) ?r = page_start_bytes kmap m bs" by simp
  have "bytes_at ?m2 ?d ?n = bytes_at ?m1 ?d ?n"
  proof (rule bytes_at_cong)
    fix a assume "a \<in> region ?d ?n"
    then have "a \<notin> region (?d + of_nat ?n) ?r"
      using region_adjacent_disjoint[OF len, of ?d] by blast
    then have "a \<notin> region (ramdisk dev + (off + ucast (bv_len b))) ?r" by (simp add: d2)
    then show "?m2 a = ?m1 a" by (rule copy_segments_write_frame)
  qed
  also have "\<dots> = bytes_at m (kmap (bv_page b)) ?n"
    by (rule bytes_at_memcpy) (rule bv_len_bound)
  finally have head: "bytes_at ?m2 ?d ?n = bytes_at m (kmap (bv_page b)) ?n" .
  show ?case
    by (simp only: step segments_len_Cons bytes_at_append head tail page_start_bytes_Cons)
qed

lemma copy_segments_read_data:
  assumes "disjoint_bufs kmap bvecs"
    and "\<forall>b \<in> set bvecs. buf_region kmap b \<inter> region (ramdisk dev + off) (segments_len bvecs) = {}"
  shows "page_start_bytes kmap (snd (copy_segments kmap dev READ bvecs (off, m))) bvecs
         = bytes_at m (ramdisk dev + off) (segments_len bvecs)"
  using assms
proof (induction bvecs arbitrary: off m)
  case Nil
  then show ?case by (simp add: segments_len_def page_start_bytes_def bytes_at_def)
next
  case (Cons b bs)
  let ?n = "unat (bv_len b)"
  let ?r = "segments_len bs"
  let ?d = "ramdisk dev + off"
  let ?buf = "kmap (bv_page b)"
  let ?m1 = "memcpy ?buf ?d ?n m"
  let ?m2 = "snd (copy_segments kmap dev READ bs (off + ucast (bv_len b), ?m1))"
  have step: "copy_segments kmap dev READ (b # bs) (off, m)
      = copy_segments kmap dev READ bs (off + ucast (bv_len b), ?m1)"
    by (simp add: copy_segment_def Let_def)
  have d2: "ramdisk dev + (off + ucast (bv_len b)) = ?d + of_nat ?n"
    by (simp add: add.assoc)
  have whole: "region ?d (?n + ?r) = region ?d ?n \<union> region (?d + of_nat ?n) ?r"
    by (rule region_add)
  from Cons.prems(1) have dis: "\<forall>c \<in> set bs. buf_region kmap b \<inter> buf_region kmap c = {}"
    and dbs: "disjoint_bufs kmap bs" by simp_all
  have bufs: "\<forall>c \<in> set bs. buf_region kmap c \<inter> region (ramdisk dev + (off + ucast (bv_len b))) ?r = {}"
    using Cons.prems(2) by (auto simp: segments_len_Cons whole d2)
  have ih: "page_start_bytes kmap ?m2 bs = bytes_at ?m1 (?d + of_nat ?n) ?r"
    using Cons.IH[OF dbs bufs, of ?m1] by (simp add: d2)
  have "bytes_at ?m1 (?d + of_nat ?n) ?r = bytes_at m (?d + of_nat ?n) ?r"
  proof (rule bytes_at_cong)
    fix a assume "a \<in> region (?d + of_nat ?n) ?r"
    then have "a \<notin> region ?buf ?n"
      using Cons.prems(2) by (auto simp: segments_len_Cons whole buf_region_def)
    then show "?m1 a = m a" by (rule memcpy_frame)
  qed
  with ih have tail: "page_start_bytes kmap ?m2 bs = bytes_at m (?d + of_nat ?n) ?r" by simp
  have "bytes_at ?m2 ?buf ?n = bytes_at ?m1 ?buf ?n"
  proof (rule bytes_at_cong)
    fix a assume "a \<in> region ?buf ?n"
    then have "a \<notin> (\<Union>c \<in> set bs. buf_region kmap c)"
      using dis by (auto simp: buf_region_def)
    then show "?m2 a = ?m1 a" by (rule copy_segments_read_frame)
  qed
  also have "\<dots> = bytes_at m ?d ?n"
    by (rule bytes_at_memcpy) (rule bv_len_bound)
  finally have head: "bytes_at ?m2 ?buf ?n = bytes_at m ?d ?n" .
  show ?case
    by (simp only: step segments_len_Cons bytes_at_append head tail page_start_bytes_Cons)
qed


lemma region_disjointI:
  assumes "n \<le> unat (q - p)" and "unat (q - p) + k \<le> 2 ^ 64"
  shows "region p n \<inter> region q k = {}"
proof (rule ccontr)
  assume "region p n \<inter> region q k \<noteq> {}"
  then obtain a where a: "a \<in> region p n" "a \<in> region q k" by blast
  have "unat (q - p) < 2 ^ 64" using unsigned_less[of "q - p"] by simp
  with assms(1) have "n \<le> 2 ^ 64" by simp
  with a(1) have lt: "unat (a - p) < n" by (simp add: region_iff)
  from a(2) obtain j where j: "j < k" "a = q + of_nat j" by (auto simp: region_def)
  then have "a - p = of_nat (unat (q - p) + j)" by simp
  then have "unat (a - p) = (unat (q - p) + j) mod 2 ^ 64" by (simp only: unat_of_nat) simp
  moreover have "unat (q - p) + j < 2 ^ 64" using j(1) assms(2) by simp
  ultimately have "unat (a - p) = unat (q - p) + j" by simp
  with lt assms(1) show False by simp
qed

lemma sector_offset_of_nat: "sector_offset bi = of_nat (unat (bi_sector bi) * 512)"
  by (simp add: sector_offset_def KERNEL_SHIFT_def push_bit_eq_mult)

lemma unat_sector_offset: "unat (sector_offset bi) = (unat (bi_sector bi) * 512) mod 2 ^ 64"
  by (simp only: sector_offset_of_nat unat_of_nat) simp

lemma region_subset_store:
  assumes "off + n \<le> unat (size_bytes dev)"
  shows "region (ramdisk dev + of_nat off) n \<subseteq> store_region dev"
proof
  fix a assume "a \<in> region (ramdisk dev + of_nat off) n"
  then obtain k where k: "k < n" "a = ramdisk dev + of_nat off + of_nat k" by (auto simp: region_def)
  then have "off + k < unat (size_bytes dev)" "a = ramdisk dev + of_nat (off + k)" using assms by auto
  then show "a \<in> store_region dev" unfolding store_region_def region_def by blast
qed

lemma mem_make_request:
  "mem (xiprd_make_request kmap st bi m) =
     snd (copy_segments kmap (globaldev st) (bio_data_dir bi) (bi_io_vec bi) (sector_offset bi, m))"
  by (simp add: xiprd_make_request_def Let_def split: prod.split)

lemma ret_make_request:
  "ret (xiprd_make_request kmap st bi m) = 0 \<and> endio_error (xiprd_make_request kmap st bi m) = 0"
  by (simp add: xiprd_make_request_def Let_def split: prod.split)

section \<open>Geometry\<close>

lemma unat_cylinders:
  "unat (cylinders (snd (xiprd_getgeo d geo))) = (unat (capacity d) div 2048) mod 65536"
  by (simp add: xiprd_getgeo_def unsigned_ucast_eq unat_drop_bit_eq drop_bit_eq_div
      take_bit_eq_mod unsigned_take_bit_eq unat_div)

lemma getgeo_fixed:
  "fst (xiprd_getgeo d geo) = 0 \<and> heads (snd (xiprd_getgeo d geo)) = 64 \<and>
   sectors (snd (xiprd_getgeo d geo)) = 32 \<and> start (snd (xiprd_getgeo d geo)) = start geo"
  by (simp add: xiprd_getgeo_def)

lemma chs_sectors_getgeo:
  "chs_sectors (snd (xiprd_getgeo d geo)) = 2048 * ((unat (capacity d) div 2048) mod 65536)"
  using unat_cylinders[of d geo] by (simp add: chs_sectors_def getgeo_fixed)

lemma xiprd_init_ok_capacity:
  assumes "xiprd_init h st = (0, st', log)"
  shows "\<exists>d. disk (globaldev st') = Some d \<and>
             size_bytes (globaldev st') = num_sectors st * scast (sector_size st) \<and>
             capacity d = drop_bit 9 (size_bytes (globaldev st'))"
  using assms
  by (auto simp: xiprd_init_def init_fail_def Let_def ENOMEM_def KERNEL_SHIFT_def
      split: if_splits option.splits)

lemma xiprd_init_default: "xiprd_init good_host default_module =
  (0, default_module\<lparr>globaldev := \<lparr>major = 0, name = ''xiprd'',
        disk = Some \<lparr>disk_name = ''xiprd0'', gd_major = 0, first_minor = 0, fops_set = True,
           private_data_set = True,
           gd_queue = Some \<lparr>make_request_fn_set = True, logical_block_size = 512, queuedata_set = True\<rparr>,
           capacity = 2097152\<rparr>,
        size_bytes = 1073741824, queue = None, ramdisk = 0xFFFFC90000000000\<rparr>,
      kernel_sectors := 2097152\<rparr>,
   [Vmalloc 1073741824 0xFFFFC90000000000, RegisterBlkdev 0 ''xiprd'' 254, AllocDisk 16 True,
    BlkAllocQueue True, AddDisk])"
  by (simp add: xiprd_init_def default_module_def good_host_def default_sector_size_def
      default_num_sectors_def SECTOR_SIZE_def SECTOR_SHIFT_def KERNEL_SHIFT_def zero_dev_def
      new_gendisk_def new_queue_def BD_NAME_MAX_def DRV_NAME_def NUM_MINORS_def ENOMEM_def
      init_fail_def Let_def drop_bit_eq_div)

text \<open>
  Claim C10. The geometry query always returns status 0. Heads and sectors per track
  are the 8-bit values 64 and 32, and the cylinders are stored in a 16-bit field: the
  value reported is the capacity in 512-byte sectors shifted right by 11, reduced
  modulo \<open>2 ^ 16\<close>. It equals the shifted capacity exactly when the device has fewer
  than \<open>2 ^ 27\<close> sectors, and has wrapped for any device of \<open>2 ^ 27\<close> sectors
  (64 GiB) or more.
\<close>

theorem getgeo_wraps_16bit:
  "fst (xiprd_getgeo d geo) = 0 \<and>
   heads (snd (xiprd_getgeo d geo)) = 64 \<and>
   sectors (snd (xiprd_getgeo d geo)) = 32 \<and>
   unat (cylinders (snd (xiprd_getgeo d geo))) = drop_bit 11 (unat (capacity d)) mod 2 ^ 16 \<and>
   ((unat (cylinders (snd (xiprd_getgeo d geo))) = drop_bit 11 (unat (capacity d)))
      = (unat (capacity d) < 2 ^ 27))"
proof -
  let ?c = "unat (capacity d)"
  have cyl: "unat (cylinders (snd (xiprd_getgeo d geo))) = (?c div 2048) mod 65536"
    by (rule unat_cylinders)
  have "((?c div 2048) mod 65536 = ?c div 2048) = (?c < 2 ^ 27)"
  proof
    assume "(?c div 2048) mod 65536 = ?c div 2048"
    then have "?c div 2048 < 65536" by (metis mod_less_divisor zero_less_numeral)
    then show "?c < 2 ^ 27" by simp
  next
    assume "?c < 2 ^ 27"
    then have "?c div 2048 < 65536" by simp
    then show "(?c div 2048) mod 65536 = ?c div 2048" by simp
  qed
  with cyl show ?thesis by (simp add: getgeo_fixed drop_bit_eq_div)
qed

theorem getgeo_wraps_16bit_witness:
  "unat (cylinders (snd (xiprd_getgeo (new_gendisk\<lparr>capacity := 2 ^ 27\<rparr>) zero_geo))) = 0 \<and>
   unat (cylinders (snd (xiprd_getgeo (new_gendisk\<lparr>capacity := 2 ^ 27 + 2 ^ 11\<rparr>) zero_geo))) = 1"
  using getgeo_wraps_16bit[of "new_gendisk\<lparr>capacity := 2 ^ 27\<rparr>" zero_geo]
    getgeo_wraps_16bit[of "new_gendisk\<lparr>capacity := 2 ^ 27 + 2 ^ 11\<rparr>" zero_geo]
  by (simp add: drop_bit_eq_div)

text \<open>
  Claim C5, amended. After a successful initialisation the disk's capacity is the
  device size in bytes divided by 512, whatever the configured sector size, and the
  geometry query returns heads = 64 and sectors per track = 32; when the device has
  fewer than \<open>2 ^ 27\<close> sectors of 512 bytes (less than 64 GiB) the cylinders are that
  sector count shifted right by 11. The default 1 GiB device reports 1024 cylinders.
\<close>

theorem getgeo_after_init:
  assumes "xiprd_init h st = (0, st', log)"
  shows "\<exists>d. disk (globaldev st') = Some d \<and>
          unat (capacity d) = unat (size_bytes (globaldev st')) div 512 \<and>
          heads (snd (xiprd_getgeo d geo)) = 64 \<and>
          sectors (snd (xiprd_getgeo d geo)) = 32 \<and>
          (unat (size_bytes (globaldev st')) div 512 < 2 ^ 27 \<longrightarrow>
             unat (cylinders (snd (xiprd_getgeo d geo)))
               = drop_bit 11 (unat (size_bytes (globaldev st')) div 512))"
proof -
  from xiprd_init_ok_capacity[OF assms] obtain d where d: "disk (globaldev st') = Some d"
    "capacity d = drop_bit 9 (size_bytes (globaldev st'))" by blast
  have cap: "unat (capacity d) = unat (size_bytes (globaldev st')) div 512"
    by (simp add: d(2) unat_drop_bit_eq drop_bit_eq_div unat_div)
  have "unat (capacity d) < 2 ^ 27 \<Longrightarrow>
     unat (cylinders (snd (xiprd_getgeo d geo))) = drop_bit 11 (unat (capacity d))"
    by (simp add: unat_cylinders drop_bit_eq_div)
  with d cap show ?thesis by (simp add: getgeo_fixed)
qed

theorem getgeo_after_init_witness:
  "fst (xiprd_init good_host default_module) = 0 \<and>
   (case disk (globaldev (fst (snd (xiprd_init good_host default_module)))) of
      None \<Rightarrow> False
    | Some d \<Rightarrow> unat (capacity d) = 2097152 \<and>
        heads (snd (xiprd_getgeo d zero_geo)) = 64 \<and>
        sectors (snd (xiprd_getgeo d zero_geo)) = 32 \<and>
        unat (cylinders (snd (xiprd_getgeo d zero_geo))) = 1024)"
  using getgeo_after_init[OF xiprd_init_default, of zero_geo]
  by (auto simp: xiprd_init_default drop_bit_eq_div)

text \<open>
  The claim as first stated, for every capacity, fails on a 64 GiB device: the sector
  count shifted right by 11 is 65536, and the 16-bit field holds 0.
\<close>

theorem getgeo_64GiB_cylinders_zero:
  "fst (xiprd_init good_host big_module) = 0 \<and>
   size_bytes (globaldev (fst (snd (xiprd_init good_host big_module)))) = 2 ^ 36 \<and>
   (case disk (globaldev (fst (snd (xiprd_init good_host big_module)))) of
      None \<Rightarrow> False
    | Some d \<Rightarrow> unat (capacity d) = 2 ^ 36 div 512 \<and>
        unat (cylinders (snd (xiprd_getgeo d zero_geo))) = 0 \<and>
        unat (cylinders (snd (xiprd_getgeo d zero_geo))) \<noteq> drop_bit 11 (2 ^ 36 div 512))"
  by (simp add: xiprd_init_def big_module_def default_module_def good_host_def default_sector_size_def
      SECTOR_SIZE_def SECTOR_SHIFT_def KERNEL_SHIFT_def zero_dev_def
      new_gendisk_def new_queue_def BD_NAME_MAX_def DRV_NAME_def NUM_MINORS_def ENOMEM_def
      init_fail_def Let_def drop_bit_eq_div xiprd_getgeo_def zero_geo_def)

text \<open>
  Claim C7, amended. For a device of fewer than \<open>2 ^ 27\<close> sectors of 512 bytes, the
  product heads * sectors per track * cylinders is at most the sector count
  (capacity in bytes divided by 512) and less than one cylinder unit (64 * 32 sectors)
  below it; and among such devices the product does not decrease when the capacity
  grows.
\<close>

theorem chs_sectors_below_64GiB:
  "(unat sz div 512 < 2 ^ 27 \<longrightarrow>
      chs_sectors (snd (xiprd_getgeo (d\<lparr>capacity := drop_bit KERNEL_SHIFT sz\<rparr>) geo)) \<le> unat sz div 512 \<and>
      unat sz div 512 < chs_sectors (snd (xiprd_getgeo (d\<lparr>capacity := drop_bit KERNEL_SHIFT sz\<rparr>) geo)) + 64 * 32) \<and>
   (unat sz1 \<le> unat sz2 \<and> unat sz2 div 512 < 2 ^ 27 \<longrightarrow>
      chs_sectors (snd (xiprd_getgeo (d1\<lparr>capacity := drop_bit KERNEL_SHIFT sz1\<rparr>) geo1))
        \<le> chs_sectors (snd (xiprd_getgeo (d2\<lparr>capacity := drop_bit KERNEL_SHIFT sz2\<rparr>) geo2)))"
proof -
  have cap: "\<And>(s :: 64 word). unat (drop_bit KERNEL_SHIFT s) = unat s div 512"
    by (simp add: KERNEL_SHIFT_def unat_drop_bit_eq drop_bit_eq_div unat_div)
  have small: "\<And>c :: nat. c < 2 ^ 27 \<Longrightarrow> (c div 2048) mod 65536 = c div 2048"
  proof -
    fix c :: nat assume "c < 2 ^ 27"
    then have "c div 2048 < 65536" by simp
    then show "(c div 2048) mod 65536 = c div 2048" by simp
  qed
  have chs: "\<And>(s :: 64 word) e g. unat s div 512 < 2 ^ 27 \<Longrightarrow>
      chs_sectors (snd (xiprd_getgeo (e\<lparr>capacity := drop_bit KERNEL_SHIFT s\<rparr>) g))
        = 2048 * (unat s div 512 div 2048)"
  proof -
    fix s :: "64 word" and e :: gendisk and g :: hd_geometry
    assume lt: "unat s div 512 < 2 ^ 27"
    have sel: "capacity (e\<lparr>capacity := drop_bit KERNEL_SHIFT s\<rparr>) = drop_bit KERNEL_SHIFT s" by simp
    show "chs_sectors (snd (xiprd_getgeo (e\<lparr>capacity := drop_bit KERNEL_SHIFT s\<rparr>) g))
        = 2048 * (unat s div 512 div 2048)"
      by (simp only: chs_sectors_getgeo sel cap small[OF lt])
  qed
  have within: "\<And>c :: nat. 2048 * (c div 2048) \<le> c \<and> c < 2048 * (c div 2048) + 64 * 32"
  proof -
    fix c :: nat
    have "c = 2048 * (c div 2048) + c mod 2048" by simp
    moreover have "c mod 2048 < 2048" by simp
    ultimately show "2048 * (c div 2048) \<le> c \<and> c < 2048 * (c div 2048) + 64 * 32" by linarith
  qed
  have one: "unat sz div 512 < 2 ^ 27 \<Longrightarrow>
      chs_sectors (snd (xiprd_getgeo (d\<lparr>capacity := drop_bit KERNEL_SHIFT sz\<rparr>) geo)) \<le> unat sz div 512 \<and>
      unat sz div 512 < chs_sectors (snd (xiprd_getgeo (d\<lparr>capacity := drop_bit KERNEL_SHIFT sz\<rparr>) geo)) + 64 * 32"
    by (simp only: chs within)
  have two: "unat sz1 \<le> unat sz2 \<Longrightarrow> unat sz2 div 512 < 2 ^ 27 \<Longrightarrow>
      chs_sectors (snd (xiprd_getgeo (d1\<lparr>capacity := drop_bit KERNEL_SHIFT sz1\<rparr>) geo1))
        \<le> chs_sectors (snd (xiprd_getgeo (d2\<lparr>capacity := drop_bit KERNEL_SHIFT sz2\<rparr>) geo2))"
  proof -
    assume a: "unat sz1 \<le> unat sz2" "unat sz2 div 512 < 2 ^ 27"
    then have le: "unat sz1 div 512 \<le> unat sz2 div 512" by (rule_tac div_le_mono)
    with a have lt: "unat sz1 div 512 < 2 ^ 27" by linarith
    from le have "unat sz1 div 512 div 2048 \<le> unat sz2 div 512 div 2048" by (rule div_le_mono)
    then have "2048 * (unat sz1 div 512 div 2048) \<le> 2048 * (unat sz2 div 512 div 2048)" by simp
    then show ?thesis by (simp only: chs[OF lt] chs[OF a(2)])
  qed
  from one two show ?thesis by blast
qed

theorem chs_sectors_below_64GiB_witness:
  "chs_sectors (snd (xiprd_getgeo (new_gendisk\<lparr>capacity := drop_bit KERNEL_SHIFT (2 ^ 30 + 512)\<rparr>) zero_geo)) \<le> 2097153 \<and>
   2097153 < chs_sectors (snd (xiprd_getgeo (new_gendisk\<lparr>capacity := drop_bit KERNEL_SHIFT (2 ^ 30 + 512)\<rparr>) zero_geo)) + 64 * 32 \<and>
   chs_sectors (snd (xiprd_getgeo (new_gendisk\<lparr>capacity := drop_bit KERNEL_SHIFT (2 ^ 30)\<rparr>) zero_geo))
     \<le> chs_sectors (snd (xiprd_getgeo (new_gendisk\<lparr>capacity := drop_bit KERNEL_SHIFT (2 ^ 31)\<rparr>) zero_geo))"
  using chs_sectors_below_64GiB[of "2 ^ 30 + 512" new_gendisk zero_geo "2 ^ 30" "2 ^ 31" new_gendisk zero_geo new_gendisk zero_geo]
  by simp

text \<open>
  For all positive capacities the claim fails: at 64 GiB the product is 0, more than
  one cylinder unit away from the \<open>2 ^ 27\<close> sectors of the device, and smaller than
  the product of a device one MiB smaller.
\<close>

theorem chs_sectors_64GiB_counterexample:
  "unat (2 ^ 36 :: 64 word) div 512 = 2 ^ 27 \<and>
   chs_sectors (snd (xiprd_getgeo (new_gendisk\<lparr>capacity := drop_bit KERNEL_SHIFT (2 ^ 36)\<rparr>) zero_geo)) = 0 \<and>
   \<not> (unat (2 ^ 36 :: 64 word) div 512
        < chs_sectors (snd (xiprd_getgeo (new_gendisk\<lparr>capacity := drop_bit KERNEL_SHIFT (2 ^ 36)\<rparr>) zero_geo)) + 64 * 32) \<and>
   unat (2 ^ 36 - 2 ^ 20 :: 64 word) \<le> unat (2 ^ 36 :: 64 word) \<and>
   \<not> (chs_sectors (snd (xiprd_getgeo (new_gendisk\<lparr>capacity := drop_bit KERNEL_SHIFT (2 ^ 36 - 2 ^ 20)\<rparr>) zero_geo))
        \<le> chs_sectors (snd (xiprd_getgeo (new_gendisk\<lparr>capacity := drop_bit KERNEL_SHIFT (2 ^ 36)\<rparr>) zero_geo)))"
  by (simp add: chs_sectors_def xiprd_getgeo_def KERNEL_SHIFT_def new_gendisk_def zero_geo_def drop_bit_eq_div)

section \<open>Requests\<close>

lemma memcpy_zero: "memcpy dest src 0 m = m"
  by (simp add: memcpy_def)

lemma copy_segments_append:
  "copy_segments kmap dev dir (bs @ cs) s = copy_segments kmap dev dir cs (copy_segments kmap dev dir bs s)"
  by (induction bs arbitrary: s) simp_all

lemma copy_segment_zero_len:
  "copy_segment kmap dev dir (b\<lparr>bv_len := 0\<rparr>) (off, m) = (off, m)"
  by (simp add: copy_segment_def Let_def memcpy_zero)

lemma store_index_outside_region:
  assumes "off + n \<le> 2 ^ 64" and "i < 2 ^ 64" and "i \<notin> {off ..< off + n}"
  shows "p + of_nat i \<notin> region (p + of_nat off) n"
proof
  assume "p + of_nat i \<in> region (p + of_nat off) n"
  then obtain k where k: "k < n" "p + of_nat i = p + of_nat off + (of_nat k :: 64 word)"
    by (auto simp: region_def)
  then have "(of_nat i :: 64 word) = of_nat (off + k)" by simp
  then have "unat (of_nat i :: 64 word) = unat (of_nat (off + k) :: 64 word)" by simp
  then have "i mod 2 ^ 64 = (off + k) mod 2 ^ 64" by (simp only: unat_of_nat) simp
  moreover have "off + k < 2 ^ 64" using k(1) assms(1) by simp
  ultimately have "i = off + k" using assms(2) by simp
  with k(1) assms(3) show False by simp
qed

text \<open>Evaluating the model on the concrete configurations.\<close>

lemmas init_eval_defs = xiprd_init_def default_module_def good_host_def default_sector_size_def
  default_num_sectors_def SECTOR_SIZE_def SECTOR_SHIFT_def KERNEL_SHIFT_def zero_dev_def
  new_gendisk_def new_queue_def BD_NAME_MAX_def DRV_NAME_def NUM_MINORS_def ENOMEM_def
  init_fail_def Let_def drop_bit_eq_div

lemma ready_module_dev:
  "fst (xiprd_init good_host small_module) = 0 \<and>
   ramdisk (globaldev ready_module) = 0xFFFFC90000000000 \<and>
   size_bytes (globaldev ready_module) = 1048576 \<and>
   sector_size ready_module = 512"
  by (simp add: ready_module_def small_module_def init_eval_defs)


lemma page_outside_ready_store:
  "unat (bv_len b) \<le> 4096 \<Longrightarrow> bv_page b < 2 ^ 20 \<Longrightarrow>
   buf_region linear_kmap b \<inter> store_region (globaldev ready_module) = {}"
proof -
  assume len: "unat (bv_len b) \<le> 4096" and pg: "bv_page b < 2 ^ 20"
  let ?p = "0xFFFFC90000000000 :: 64 word"
  let ?q = "linear_kmap (bv_page b)"
  have q: "?q = of_nat (0xFFFF880000000000 + bv_page b * 4096)"
    by (simp add: linear_kmap_def)
  have "unat ?q = (0xFFFF880000000000 + bv_page b * 4096) mod 2 ^ 64"
    unfolding q by (simp only: unat_of_nat) simp
  moreover have "0xFFFF880000000000 + bv_page b * 4096 < (2 ^ 64 :: nat)" using pg by simp
  ultimately have uq: "unat ?q = 0xFFFF880000000000 + bv_page b * 4096" by simp
  have le: "?q \<le> ?p" using uq pg by (simp add: word_le_nat_alt)
  then have d: "unat (?p - ?q) = unat ?p - unat ?q" by (simp add: unat_sub)
  have up: "unat ?p = 0xFFFFC90000000000" by simp
  have "region ?q (unat (bv_len b)) \<inter> region ?p 1048576 = {}"
  proof (rule region_disjointI)
    show "unat (bv_len b) \<le> unat (?p - ?q)" using d up uq pg len by simp
    show "unat (?p - ?q) + 1048576 \<le> 2 ^ 64" using d up uq by simp
  qed
  then show ?thesis by (simp add: buf_region_def store_region_def ready_module_dev)
qed

lemma ab_memory_page: "bytes_at ab_memory (linear_kmap 512) 512 = replicate 512 0xAB"
proof -
  have "\<And>k. k < 512 \<Longrightarrow> ab_memory (linear_kmap 512 + of_nat k) = 0xAB"
  proof -
    fix k :: nat assume k: "k < 512"
    have "unat (of_nat k :: 64 word) = k mod 2 ^ 64" by (simp only: unat_of_nat) simp
    with k have "unat (of_nat k :: 64 word) < 4096" by simp
    then show "ab_memory (linear_kmap 512 + of_nat k) = 0xAB" by (simp add: ab_memory_def)
  qed
  then have "map (\<lambda>k. ab_memory (linear_kmap 512 + of_nat k)) [0..<512] = map (\<lambda>k. 0xAB) [0..<512]"
    by (intro map_cong) simp_all
  then show ?thesis by (simp add: bytes_at_def map_replicate_const)
qed

text \<open>
  Claim C8. A request with an empty segment list returns 0, completes with status 0
  and leaves the whole memory (backing store and caller buffers) as it was. A segment
  of length zero changes neither the memory nor the offset, and a request gives the
  same result with such a segment as without it.
\<close>

theorem empty_and_zero_length_segments:
  "xiprd_make_request kmap st (bi\<lparr>bi_io_vec := []\<rparr>) m = \<lparr>ret = 0, endio_error = 0, mem = m\<rparr> \<and>
   copy_segment kmap dev dir (b\<lparr>bv_len := 0\<rparr>) (off, m) = (off, m) \<and>
   xiprd_make_request kmap st (bi\<lparr>bi_io_vec := bs @ b\<lparr>bv_len := 0\<rparr> # cs\<rparr>) m
     = xiprd_make_request kmap st (bi\<lparr>bi_io_vec := bs @ cs\<rparr>) m"
proof -
  have empty: "xiprd_make_request kmap st (bi\<lparr>bi_io_vec := []\<rparr>) m = \<lparr>ret = 0, endio_error = 0, mem = m\<rparr>"
    by (simp add: xiprd_make_request_def)
  have skip: "\<And>s. copy_segments kmap (globaldev st) (bio_data_dir bi) (bs @ b\<lparr>bv_len := 0\<rparr> # cs) s
      = copy_segments kmap (globaldev st) (bio_data_dir bi) (bs @ cs) s"
  proof -
    fix s
    obtain off' m' where s': "copy_segments kmap (globaldev st) (bio_data_dir bi) bs s = (off', m')"
      by (cases "copy_segments kmap (globaldev st) (bio_data_dir bi) bs s")
    show "copy_segments kmap (globaldev st) (bio_data_dir bi) (bs @ b\<lparr>bv_len := 0\<rparr> # cs) s
      = copy_segments kmap (globaldev st) (bio_data_dir bi) (bs @ cs) s"
      by (simp add: copy_segments_append s' copy_segment_zero_len)
  qed
  have "xiprd_make_request kmap st (bi\<lparr>bi_io_vec := bs @ b\<lparr>bv_len := 0\<rparr> # cs\<rparr>) m
     = xiprd_make_request kmap st (bi\<lparr>bi_io_vec := bs @ cs\<rparr>) m"
    by (simp add: xiprd_make_request_def skip sector_offset_def)
  with empty show ?thesis by (simp add: copy_segment_zero_len)
qed

text \<open>
  Claim C9. A Read request whose buffers lie outside the backing store leaves every
  byte of the store unchanged. A Write request changes no byte of memory outside the
  range that starts at the store's address plus the request's start offset and is as
  long as the sum of the segment lengths; in store offsets, when the start offset (the
  start sector times 512) plus that sum does not pass \<open>2 ^ 64\<close>, every store byte
  whose offset is outside [start offset, start offset + sum) is unchanged.
\<close>

theorem make_request_frame:
  "(bio_data_dir bi = READ \<and>
      (\<forall>b \<in> set (bi_io_vec bi). buf_region kmap b \<inter> store_region (globaldev st) = {}) \<longrightarrow>
      (\<forall>a \<in> store_region (globaldev st). mem (xiprd_make_request kmap st bi m) a = m a)) \<and>
   (bio_data_dir bi = WRITE \<longrightarrow>
      (\<forall>a. a \<notin> region (ramdisk (globaldev st) + sector_offset bi) (segments_len (bi_io_vec bi)) \<longrightarrow>
           mem (xiprd_make_request kmap st bi m) a = m a)) \<and>
   (bio_data_dir bi = WRITE \<and> unat (bi_sector bi) * 512 + segments_len (bi_io_vec bi) \<le> 2 ^ 64 \<longrightarrow>
      (\<forall>i < unat (size_bytes (globaldev st)).
          i \<notin> {unat (bi_sector bi) * 512 ..< unat (bi_sector bi) * 512 + segments_len (bi_io_vec bi)} \<longrightarrow>
          mem (xiprd_make_request kmap st bi m) (ramdisk (globaldev st) + of_nat i)
            = m (ramdisk (globaldev st) + of_nat i)))"
proof (intro conjI impI ballI allI)
  fix a
  assume "bio_data_dir bi = READ \<and>
      (\<forall>b \<in> set (bi_io_vec bi). buf_region kmap b \<inter> store_region (globaldev st) = {})"
    and "a \<in> store_region (globaldev st)"
  then have "bio_data_dir bi = READ" "a \<notin> (\<Union>b \<in> set (bi_io_vec bi). buf_region kmap b)"
    by auto
  then show "mem (xiprd_make_request kmap st bi m) a = m a"
    by (simp add: mem_make_request copy_segments_read_frame)
next
  fix a
  assume "bio_data_dir bi = WRITE"
    and "a \<notin> region (ramdisk (globaldev st) + sector_offset bi) (segments_len (bi_io_vec bi))"
  then show "mem (xiprd_make_request kmap st bi m) a = m a"
    by (simp add: mem_make_request copy_segments_write_frame)
next
  fix i
  assume w: "bio_data_dir bi = WRITE \<and> unat (bi_sector bi) * 512 + segments_len (bi_io_vec bi) \<le> 2 ^ 64"
    and i: "i < unat (size_bytes (globaldev st))"
    and out: "i \<notin> {unat (bi_sector bi) * 512 ..< unat (bi_sector bi) * 512 + segments_len (bi_io_vec bi)}"
  have "unat (size_bytes (globaldev st)) < 2 ^ 64"
    using unsigned_less[of "size_bytes (globaldev st)"] by simp
  with i have "i < 2 ^ 64" by simp
  with w out have "ramdisk (globaldev st) + of_nat i
      \<notin> region (ramdisk (globaldev st) + of_nat (unat (bi_sector bi) * 512)) (segments_len (bi_io_vec bi))"
    by (intro store_index_outside_region) simp_all
  then have "snd (copy_segments kmap (globaldev st) WRITE (bi_io_vec bi) (of_nat (unat (bi_sector bi) * 512), m))
      (ramdisk (globaldev st) + of_nat i) = m (ramdisk (globaldev st) + of_nat i)"
    by (rule copy_segments_write_frame)
  moreover from w have "bio_data_dir bi = WRITE" by simp
  ultimately show "mem (xiprd_make_request kmap st bi m) (ramdisk (globaldev st) + of_nat i)
            = m (ramdisk (globaldev st) + of_nat i)"
    by (simp only: mem_make_request sector_offset_of_nat)
qed

text \<open>
  On the 1 MiB device: a read of sector 0 leaves store byte 5 as it was, and a write of
  512 bytes at sector 0 leaves store byte 512 as it was.
\<close>

theorem make_request_frame_witness:
  "mem (xiprd_make_request linear_kmap ready_module read_bio ab_memory)
       (ramdisk (globaldev ready_module) + 5) = ab_memory (ramdisk (globaldev ready_module) + 5) \<and>
   mem (xiprd_make_request linear_kmap ready_module write_bio ab_memory)
       (ramdisk (globaldev ready_module) + of_nat 512) = ab_memory (ramdisk (globaldev ready_module) + of_nat 512)"
proof -
  note fr = make_request_frame[of read_bio linear_kmap ready_module ab_memory]
  note fw = make_request_frame[of write_bio linear_kmap ready_module ab_memory]
  have r1: "bio_data_dir read_bio = READ" by (simp add: read_bio_def)
  have r2: "\<forall>b \<in> set (bi_io_vec read_bio).
      buf_region linear_kmap b \<inter> store_region (globaldev ready_module) = {}"
    by (simp add: read_bio_def page_outside_ready_store)
  have "5 < unat (size_bytes (globaldev ready_module))" by (simp add: ready_module_dev)
  then have "ramdisk (globaldev ready_module) + of_nat 5 \<in> store_region (globaldev ready_module)"
    unfolding store_region_def region_def by blast
  then have r3: "ramdisk (globaldev ready_module) + 5 \<in> store_region (globaldev ready_module)" by simp
  from fr r1 r2 r3 have a: "mem (xiprd_make_request linear_kmap ready_module read_bio ab_memory)
       (ramdisk (globaldev ready_module) + 5) = ab_memory (ramdisk (globaldev ready_module) + 5)"
    by blast
  have w1: "bio_data_dir write_bio = WRITE \<and>
      unat (bi_sector write_bio) * 512 + segments_len (bi_io_vec write_bio) \<le> 2 ^ 64"
    by (simp add: write_bio_def segments_len_def)
  have w2: "512 < unat (size_bytes (globaldev ready_module))" by (simp add: ready_module_dev)
  have w3: "512 \<notin> {unat (bi_sector write_bio) * 512 ..<
      unat (bi_sector write_bio) * 512 + segments_len (bi_io_vec write_bio)}"
    by (simp add: write_bio_def segments_len_def)
  from fw w1 w2 w3 have b: "mem (xiprd_make_request linear_kmap ready_module write_bio ab_memory)
       (ramdisk (globaldev ready_module) + of_nat 512) = ab_memory (ramdisk (globaldev ready_module) + of_nat 512)"
    by blast
  from a b show ?thesis by blast
qed

text \<open>
  The round trip over the bytes the module copies. Let a Write request and a Read
  request address the same start sector and the same number of bytes, within the
  capacity of the device, with the copied memory outside the backing store and pairwise
  disjoint for the Read request. After the Write and then the Read, the pages of the
  Read request hold at their start what the pages of the Write request held at their
  start. These are the requests' data when every segment has \<^verbatim>\<open>bv_offset\<close> 0.
\<close>

lemma bio_data_offset_zero:
  "\<forall>b \<in> set bvecs. bv_offset b = 0 \<Longrightarrow> bio_data kmap m bvecs = page_start_bytes kmap m bvecs"
  by (induction bvecs) (simp_all add: bio_data_def page_start_bytes_def)

lemma round_trip_at_page_start:
  assumes "bio_data_dir bw = WRITE" and "bio_data_dir br = READ"
    and "bi_sector br = bi_sector bw"
    and "segments_len (bi_io_vec br) = segments_len (bi_io_vec bw)"
    and "unat (bi_sector bw) * 512 + segments_len (bi_io_vec bw) \<le> unat (size_bytes (globaldev st))"
    and "\<forall>b \<in> set (bi_io_vec bw @ bi_io_vec br). buf_region kmap b \<inter> store_region (globaldev st) = {}"
    and "disjoint_bufs kmap (bi_io_vec br)"
  shows "page_start_bytes kmap (mem (xiprd_make_request kmap st br (mem (xiprd_make_request kmap st bw m))))
           (bi_io_vec br) = page_start_bytes kmap m (bi_io_vec bw)"
proof -
  let ?dev = "globaldev st"
  let ?off = "sector_offset bw"
  let ?n = "segments_len (bi_io_vec bw)"
  let ?m1 = "mem (xiprd_make_request kmap st bw m)"
  let ?m2 = "mem (xiprd_make_request kmap st br ?m1)"
  have offr: "sector_offset br = ?off" using assms(3) by (simp add: sector_offset_def)
  have "unat (size_bytes ?dev) < 2 ^ 64" using unsigned_less[of "size_bytes ?dev"] by simp
  with assms(5) have n: "?n \<le> 2 ^ 64" by simp
  have sub: "region (ramdisk ?dev + ?off) ?n \<subseteq> store_region ?dev"
    using region_subset_store[OF assms(5)] by (simp only: sector_offset_of_nat)
  have wb: "\<forall>b \<in> set (bi_io_vec bw). buf_region kmap b \<inter> region (ramdisk ?dev + ?off) ?n = {}"
    using assms(6) sub by auto
  have rb: "\<forall>b \<in> set (bi_io_vec br). buf_region kmap b \<inter> region (ramdisk ?dev + ?off) (segments_len (bi_io_vec br)) = {}"
    using assms(6) sub by (auto simp: assms(4))
  have m1: "?m1 = snd (copy_segments kmap ?dev WRITE (bi_io_vec bw) (?off, m))"
    by (simp add: mem_make_request assms(1))
  have m2: "?m2 = snd (copy_segments kmap ?dev READ (bi_io_vec br) (?off, ?m1))"
    by (simp add: mem_make_request assms(2) offr)
  have "page_start_bytes kmap ?m2 (bi_io_vec br) = bytes_at ?m1 (ramdisk ?dev + ?off) (segments_len (bi_io_vec br))"
    unfolding m2 by (rule copy_segments_read_data[OF assms(7) rb])
  also have "\<dots> = bytes_at ?m1 (ramdisk ?dev + ?off) ?n" by (simp only: assms(4))
  also have "\<dots> = page_start_bytes kmap m (bi_io_vec bw)"
    unfolding m1 by (rule copy_segments_write_data[OF n wb])
  finally show ?thesis .
qed

lemma round_trip_without_bv_offset:
  assumes "bio_data_dir bw = WRITE" and "bio_data_dir br = READ"
    and "bi_sector br = bi_sector bw"
    and "segments_len (bi_io_vec br) = segments_len (bi_io_vec bw)"
    and "unat (bi_sector bw) * 512 + segments_len (bi_io_vec bw) \<le> unat (size_bytes (globaldev st))"
    and "\<forall>b \<in> set (bi_io_vec bw @ bi_io_vec br). buf_region kmap b \<inter> store_region (globaldev st) = {}"
    and "disjoint_bufs kmap (bi_io_vec br)"
    and "\<forall>b \<in> set (bi_io_vec bw @ bi_io_vec br). bv_offset b = 0"
  shows "bio_data kmap (mem (xiprd_make_request kmap st br (mem (xiprd_make_request kmap st bw m))))
           (bi_io_vec br) = bio_data kmap m (bi_io_vec bw)"
proof -
  from assms(8) have "\<forall>b \<in> set (bi_io_vec bw). bv_offset b = 0" "\<forall>b \<in> set (bi_io_vec br). bv_offset b = 0"
    by simp_all
  then show ?thesis
    using round_trip_at_page_start[OF assms(1-7), of m] by (simp add: bio_data_offset_zero)
qed

lemma round_trip_sector_0:
  "bio_data linear_kmap
     (mem (xiprd_make_request linear_kmap ready_module read_bio
        (mem (xiprd_make_request linear_kmap ready_module write_bio ab_memory))))
     (bi_io_vec read_bio) = replicate 512 0xAB"
proof -
  have h1: "bio_data_dir write_bio = WRITE" by (simp add: write_bio_def)
  have h2: "bio_data_dir read_bio = READ" by (simp add: read_bio_def)
  have h3: "bi_sector read_bio = bi_sector write_bio" by (simp add: read_bio_def write_bio_def)
  have h4: "segments_len (bi_io_vec read_bio) = segments_len (bi_io_vec write_bio)"
    by (simp add: read_bio_def write_bio_def segments_len_def)
  have h5: "unat (bi_sector write_bio) * 512 + segments_len (bi_io_vec write_bio)
      \<le> unat (size_bytes (globaldev ready_module))"
    by (simp add: write_bio_def segments_len_def ready_module_dev)
  have h6: "\<forall>b \<in> set (bi_io_vec write_bio @ bi_io_vec read_bio).
      buf_region linear_kmap b \<inter> store_region (globaldev ready_module) = {}"
    by (simp add: write_bio_def read_bio_def page_outside_ready_store)
  have h7: "disjoint_bufs linear_kmap (bi_io_vec read_bio)" by (simp add: read_bio_def)
  have h8: "\<forall>b \<in> set (bi_io_vec write_bio @ bi_io_vec read_bio). bv_offset b = 0"
    by (simp add: write_bio_def read_bio_def)
  have "bio_data linear_kmap ab_memory (bi_io_vec write_bio) = replicate 512 0xAB"
    using ab_memory_page by (simp add: bio_data_def write_bio_def)
  with round_trip_without_bv_offset[OF h1 h2 h3 h4 h5 h6 h7 h8, of ab_memory] show ?thesis by simp
qed

lemma cd_ab_memory_data: "bytes_at cd_ab_memory (linear_kmap 512 + 512) 512 = replicate 512 0xAB"
proof -
  have "\<And>k. k < 512 \<Longrightarrow> cd_ab_memory (linear_kmap 512 + 512 + of_nat k) = 0xAB"
  proof -
    fix k :: nat assume k: "k < 512"
    have "linear_kmap 512 + 512 + of_nat k - linear_kmap 512 = (of_nat (512 + k) :: 64 word)" by simp
    moreover have "unat (of_nat (512 + k) :: 64 word) = (512 + k) mod 2 ^ 64" by (simp only: unat_of_nat) simp
    ultimately have "unat (linear_kmap 512 + 512 + of_nat k - linear_kmap 512) = 512 + k" using k by simp
    with k show "cd_ab_memory (linear_kmap 512 + 512 + of_nat k) = 0xAB"
      unfolding cd_ab_memory_def by simp
  qed
  then have "map (\<lambda>k. cd_ab_memory (linear_kmap 512 + 512 + of_nat k)) [0..<512] = map (\<lambda>k. 0xAB) [0..<512]"
    by (intro map_cong) simp_all
  then show ?thesis by (simp add: bytes_at_def map_replicate_const)
qed

lemma nth_bytes_at: "k < n \<Longrightarrow> bytes_at m p n ! k = m (p + of_nat k)"
  by (simp add: bytes_at_def)

text \<open>
  Claim C1, at a Write request whose 512 bytes of data lie 512 bytes into their page
  and a Read request into bytes 512 to 1023 of another page, both for sector 0 of the
  1 MiB device. The data written are 512 bytes of \<open>0xAB\<close>. The module copies from and
  to the start of the pages: the store receives the \<open>0xCD\<close> bytes found there, and
  the data of the Read request after the round trip are not the data written.
\<close>

theorem round_trip_loses_data_at_bv_offset:
  "unat (bi_sector offset_write_bio) * 512 + segments_len (bi_io_vec offset_write_bio)
     \<le> unat (size_bytes (globaldev ready_module)) \<and>
   bio_data linear_kmap cd_ab_memory (bi_io_vec offset_write_bio) = replicate 512 0xAB \<and>
   mem (xiprd_make_request linear_kmap ready_module offset_write_bio cd_ab_memory)
     (ramdisk (globaldev ready_module)) = 0xCD \<and>
   bio_data linear_kmap
     (mem (xiprd_make_request linear_kmap ready_module offset_read_bio
        (mem (xiprd_make_request linear_kmap ready_module offset_write_bio cd_ab_memory))))
     (bi_io_vec offset_read_bio) ! 0 = 0 \<and>
   bio_data linear_kmap
     (mem (xiprd_make_request linear_kmap ready_module offset_read_bio
        (mem (xiprd_make_request linear_kmap ready_module offset_write_bio cd_ab_memory))))
     (bi_io_vec offset_read_bio)
   \<noteq> bio_data linear_kmap cd_ab_memory (bi_io_vec offset_write_bio)"
proof -
  let ?m2 = "mem (xiprd_make_request linear_kmap ready_module offset_read_bio
        (mem (xiprd_make_request linear_kmap ready_module offset_write_bio cd_ab_memory)))"
  have rng: "unat (bi_sector offset_write_bio) * 512 + segments_len (bi_io_vec offset_write_bio)
     \<le> unat (size_bytes (globaldev ready_module))"
    by (simp add: offset_write_bio_def segments_len_def ready_module_dev)
  have data: "bio_data linear_kmap cd_ab_memory (bi_io_vec offset_write_bio) = replicate 512 0xAB"
    using cd_ab_memory_data by (simp add: bio_data_def offset_write_bio_def)
  have store: "mem (xiprd_make_request linear_kmap ready_module offset_write_bio cd_ab_memory)
     (ramdisk (globaldev ready_module)) = 0xCD"
    by (simp add: ready_module_dev offset_write_bio_def mem_make_request sector_offset_def
        KERNEL_SHIFT_def copy_segment_def Let_def memcpy_def linear_kmap_def cd_ab_memory_def)
  have "bio_data linear_kmap ?m2 (bi_io_vec offset_read_bio) ! 0 = ?m2 (linear_kmap 513 + 512)"
    by (simp add: bio_data_def offset_read_bio_def nth_bytes_at)
  also have "\<dots> = 0"
    by (simp add: ready_module_dev offset_write_bio_def offset_read_bio_def mem_make_request
        sector_offset_def KERNEL_SHIFT_def copy_segment_def Let_def memcpy_def linear_kmap_def
        cd_ab_memory_def)
  finally have rd0: "bio_data linear_kmap ?m2 (bi_io_vec offset_read_bio) ! 0 = 0" .
  have neq: "bio_data linear_kmap ?m2 (bi_io_vec offset_read_bio)
      \<noteq> bio_data linear_kmap cd_ab_memory (bi_io_vec offset_write_bio)"
  proof
    assume "bio_data linear_kmap ?m2 (bi_io_vec offset_read_bio)
      = bio_data linear_kmap cd_ab_memory (bi_io_vec offset_write_bio)"
    with rd0 data have "replicate 512 (0xAB :: 8 word) ! 0 = 0" by simp
    then show False by simp
  qed
  from rng data store rd0 neq show ?thesis by blast
qed

lemma unat_ucast_len: "unat (ucast (len :: 32 word) :: 64 word) = unat len"
proof -
  have "unat len < 2 ^ 32" using unsigned_less[of len] by simp
  then have "unat len < 2 ^ 64" by simp
  then show ?thesis by (simp add: unsigned_ucast_eq take_bit_nat_eq_self unsigned_take_bit_eq)
qed

lemma unat_offset_advance:
  assumes "unat (off :: 64 word) + unat (len :: 32 word) \<le> unat (sz :: 64 word)"
  shows "unat (off + ucast len) = unat off + unat len"
proof -
  have "unat sz < 2 ^ 64" using unsigned_less[of sz] by simp
  with assms have "unat off + unat (ucast len :: 64 word) < 2 ^ LENGTH(64)" by (simp add: unat_ucast_len)
  then have "unat (off + ucast len) = unat off + unat (ucast len :: 64 word)"
    by (rule unat_add_lem[THEN iffD1])
  then show ?thesis by (simp add: unat_ucast_len)
qed

lemma run_segments_in_store:
  "unat off + segments_len bvecs \<le> unat (size_bytes dev) \<Longrightarrow>
   run_segments kmap dev dir bvecs (off, m) = Inr (copy_segments kmap dev dir bvecs (off, m))"
proof (induction bvecs arbitrary: off m)
  case Nil
  then show ?case by simp
next
  case (Cons b bs)
  from Cons.prems have fit: "unat off + unat (bv_len b) \<le> unat (size_bytes dev)"
    by (simp add: segments_len_Cons)
  then have adv: "unat (off + ucast (bv_len b)) = unat off + unat (bv_len b)"
    by (rule unat_offset_advance)
  obtain m1 where step: "copy_segment kmap dev dir b (off, m) = (off + ucast (bv_len b), m1)"
    by (simp add: copy_segment_def Let_def)
  from Cons.prems adv have "unat (off + ucast (bv_len b)) + segments_len bs \<le> unat (size_bytes dev)"
    by (simp add: segments_len_Cons)
  then have "run_segments kmap dev dir bs (off + ucast (bv_len b), m1)
      = Inr (copy_segments kmap dev dir bs (off + ucast (bv_len b), m1))"
    by (rule Cons.IH)
  with fit step show ?case by simp
qed

lemma run_segments_stops:
  assumes "pre \<noteq> [] \<longrightarrow> unat off + segments_len pre \<le> unat (size_bytes dev)"
    and "unat (size_bytes dev) < unat off + segments_len pre + unat (bv_len b)"
  shows "run_segments kmap dev dir (pre @ b # post) (off, m)
         = Inl (snd (copy_segments kmap dev dir pre (off, m)))"
  using assms
proof (induction pre arbitrary: off m)
  case Nil
  then show ?case by (simp add: segments_len_def)
next
  case (Cons p ps)
  from Cons.prems(1) have all: "unat off + (unat (bv_len p) + segments_len ps) \<le> unat (size_bytes dev)"
    by (simp add: segments_len_Cons)
  then have fit: "unat off + unat (bv_len p) \<le> unat (size_bytes dev)" by simp
  then have adv: "unat (off + ucast (bv_len p)) = unat off + unat (bv_len p)"
    by (rule unat_offset_advance)
  obtain m1 where step: "copy_segment kmap dev dir p (off, m) = (off + ucast (bv_len p), m1)"
    by (simp add: copy_segment_def Let_def)
  have a: "ps \<noteq> [] \<longrightarrow> unat (off + ucast (bv_len p)) + segments_len ps \<le> unat (size_bytes dev)"
    using all adv by simp
  have b: "unat (size_bytes dev) < unat (off + ucast (bv_len p)) + segments_len ps + unat (bv_len b)"
    using Cons.prems(2) adv by (simp add: segments_len_Cons)
  have "run_segments kmap dev dir (ps @ b # post) (off + ucast (bv_len p), m1)
      = Inl (snd (copy_segments kmap dev dir ps (off + ucast (bv_len p), m1)))"
    using a b by (rule Cons.IH)
  with fit step show ?case by simp
qed

lemma segments_len_append: "segments_len (bs @ cs) = segments_len bs + segments_len cs"
  by (simp add: segments_len_def)

lemma first_segment_out_of_store:
  "bvecs \<noteq> [] \<Longrightarrow> unat (size_bytes dev) < off + segments_len bvecs \<Longrightarrow>
   \<exists>pre b post. bvecs = pre @ b # post \<and>
     (pre \<noteq> [] \<longrightarrow> off + segments_len pre \<le> unat (size_bytes dev)) \<and>
     unat (size_bytes dev) < off + segments_len pre + unat (bv_len b)"
proof (induction bvecs rule: rev_induct)
  case Nil
  then show ?case by simp
next
  case (snoc x xs)
  show ?case
  proof (cases "xs \<noteq> [] \<and> unat (size_bytes dev) < off + segments_len xs")
    case True
    with snoc.IH obtain pre b post where p: "xs = pre @ b # post"
      "pre \<noteq> [] \<longrightarrow> off + segments_len pre \<le> unat (size_bytes dev)"
      "unat (size_bytes dev) < off + segments_len pre + unat (bv_len b)" by blast
    from p(1) have "xs @ [x] = pre @ b # (post @ [x])" by simp
    with p(2,3) show ?thesis by blast
  next
    case False
    have len: "segments_len (xs @ [x]) = segments_len xs + unat (bv_len x)"
      by (simp add: segments_len_def)
    from False have "xs \<noteq> [] \<longrightarrow> off + segments_len xs \<le> unat (size_bytes dev)" by auto
    moreover from snoc.prems(2) len have "unat (size_bytes dev) < off + segments_len xs + unat (bv_len x)"
      by simp
    moreover have "xs @ [x] = xs @ x # []" by simp
    ultimately show ?thesis by blast
  qed
qed

lemma outcome_stops:
  assumes "bi_io_vec bi = pre @ b # post"
    and "pre \<noteq> [] \<longrightarrow> unat (sector_offset bi) + segments_len pre \<le> unat (size_bytes (globaldev st))"
    and "unat (size_bytes (globaldev st)) < unat (sector_offset bi) + segments_len pre + unat (bv_len b)"
  shows "make_request_outcome kmap st bi m
         = OutOfStore (mem (xiprd_make_request kmap st (bi\<lparr>bi_io_vec := pre\<rparr>) m))"
proof -
  have off: "sector_offset (bi\<lparr>bi_io_vec := pre\<rparr>) = sector_offset bi" by (simp add: sector_offset_def)
  have "run_segments kmap (globaldev st) (bio_data_dir bi) (pre @ b # post) (sector_offset bi, m)
      = Inl (snd (copy_segments kmap (globaldev st) (bio_data_dir bi) pre (sector_offset bi, m)))"
    using assms(2,3) by (rule run_segments_stops)
  then show ?thesis by (simp add: make_request_outcome_def assms(1) mem_make_request off)
qed

lemma outcome_completed:
  assumes "make_request_outcome kmap st bi m = Completed r"
  shows "r = xiprd_make_request kmap st bi m"
proof -
  have same: "\<And>bvecs s s'. run_segments kmap (globaldev st) (bio_data_dir bi) bvecs s = Inr s' \<Longrightarrow>
      s' = copy_segments kmap (globaldev st) (bio_data_dir bi) bvecs s"
  proof -
    fix bvecs s s'
    show "run_segments kmap (globaldev st) (bio_data_dir bi) bvecs s = Inr s' \<Longrightarrow>
      s' = copy_segments kmap (globaldev st) (bio_data_dir bi) bvecs s"
      by (induction bvecs arbitrary: s) (auto split: if_splits)
  qed
  from assms obtain s' where s': "run_segments kmap (globaldev st) (bio_data_dir bi) (bi_io_vec bi)
      (sector_offset bi, m) = Inr s'" "r = \<lparr>ret = 0, endio_error = 0, mem = snd s'\<rparr>"
    by (auto simp: make_request_outcome_def split: sum.splits prod.splits)
  from same[OF s'(1)] s'(2) show ?thesis
    by (simp add: xiprd_make_request_def Let_def split: prod.split)
qed

text \<open>
  Claim C2, amended. The module has no range check and no error return: a request whose
  addressed byte range exceeds the capacity is not rejected. Whenever a call returns, it
  is with 0 and completion status 0. The segments ahead of the first one that reaches
  past the end of the store are copied exactly as in a request made of those segments
  alone, so that a Write has by then overwritten the store bytes they address; the
  copy of that first segment leaves the store, and what the call does from there on is
  undefined. Every request with a segment whose byte range, from the start offset the
  module computes, exceeds the capacity has such a first segment.
\<close>

theorem out_of_range_request_not_rejected:
  "(\<forall>r. make_request_outcome kmap st bi m = Completed r \<longrightarrow>
        r = xiprd_make_request kmap st bi m \<and> ret r = 0 \<and> endio_error r = 0) \<and>
   (bi_io_vec bi = pre @ b # post \<and>
    (pre \<noteq> [] \<longrightarrow> unat (sector_offset bi) + segments_len pre \<le> unat (size_bytes (globaldev st))) \<and>
    unat (size_bytes (globaldev st)) < unat (sector_offset bi) + segments_len pre + unat (bv_len b) \<longrightarrow>
      make_request_outcome kmap st bi m
        = OutOfStore (mem (xiprd_make_request kmap st (bi\<lparr>bi_io_vec := pre\<rparr>) m))) \<and>
   (bi_io_vec bi \<noteq> [] \<and>
    unat (size_bytes (globaldev st)) < unat (sector_offset bi) + segments_len (bi_io_vec bi) \<longrightarrow>
      (\<exists>pre' b' post'. bi_io_vec bi = pre' @ b' # post' \<and>
         (pre' \<noteq> [] \<longrightarrow> unat (sector_offset bi) + segments_len pre' \<le> unat (size_bytes (globaldev st))) \<and>
         unat (size_bytes (globaldev st)) < unat (sector_offset bi) + segments_len pre' + unat (bv_len b') \<and>
         make_request_outcome kmap st bi m
           = OutOfStore (mem (xiprd_make_request kmap st (bi\<lparr>bi_io_vec := pre'\<rparr>) m))))"
proof -
  have one: "\<forall>r. make_request_outcome kmap st bi m = Completed r \<longrightarrow>
        r = xiprd_make_request kmap st bi m \<and> ret r = 0 \<and> endio_error r = 0"
  proof (intro allI impI)
    fix r assume "make_request_outcome kmap st bi m = Completed r"
    then have "r = xiprd_make_request kmap st bi m" by (rule outcome_completed)
    then show "r = xiprd_make_request kmap st bi m \<and> ret r = 0 \<and> endio_error r = 0"
      by (simp add: ret_make_request)
  qed
  have two: "bi_io_vec bi = pre @ b # post \<and>
    (pre \<noteq> [] \<longrightarrow> unat (sector_offset bi) + segments_len pre \<le> unat (size_bytes (globaldev st))) \<and>
    unat (size_bytes (globaldev st)) < unat (sector_offset bi) + segments_len pre + unat (bv_len b) \<longrightarrow>
      make_request_outcome kmap st bi m
        = OutOfStore (mem (xiprd_make_request kmap st (bi\<lparr>bi_io_vec := pre\<rparr>) m))"
  proof
    assume a: "bi_io_vec bi = pre @ b # post \<and>
      (pre \<noteq> [] \<longrightarrow> unat (sector_offset bi) + segments_len pre \<le> unat (size_bytes (globaldev st))) \<and>
      unat (size_bytes (globaldev st)) < unat (sector_offset bi) + segments_len pre + unat (bv_len b)"
    from a have h1: "bi_io_vec bi = pre @ b # post" by (rule conjunct1)
    from a have h2: "pre \<noteq> [] \<longrightarrow>
        unat (sector_offset bi) + segments_len pre \<le> unat (size_bytes (globaldev st))"
      by (rule conjunct2[THEN conjunct1])
    from a have h3: "unat (size_bytes (globaldev st))
        < unat (sector_offset bi) + segments_len pre + unat (bv_len b)"
      by (rule conjunct2[THEN conjunct2])
    from h1 h2 h3 show "make_request_outcome kmap st bi m
        = OutOfStore (mem (xiprd_make_request kmap st (bi\<lparr>bi_io_vec := pre\<rparr>) m))"
      by (rule outcome_stops)
  qed
  have three: "bi_io_vec bi \<noteq> [] \<and>
    unat (size_bytes (globaldev st)) < unat (sector_offset bi) + segments_len (bi_io_vec bi) \<longrightarrow>
      (\<exists>pre' b' post'. bi_io_vec bi = pre' @ b' # post' \<and>
         (pre' \<noteq> [] \<longrightarrow> unat (sector_offset bi) + segments_len pre' \<le> unat (size_bytes (globaldev st))) \<and>
         unat (size_bytes (globaldev st)) < unat (sector_offset bi) + segments_len pre' + unat (bv_len b') \<and>
         make_request_outcome kmap st bi m
           = OutOfStore (mem (xiprd_make_request kmap st (bi\<lparr>bi_io_vec := pre'\<rparr>) m)))"
  proof
    assume a: "bi_io_vec bi \<noteq> [] \<and>
      unat (size_bytes (globaldev st)) < unat (sector_offset bi) + segments_len (bi_io_vec bi)"
    then obtain pre' b' post' where p: "bi_io_vec bi = pre' @ b' # post'"
      "pre' \<noteq> [] \<longrightarrow> unat (sector_offset bi) + segments_len pre' \<le> unat (size_bytes (globaldev st))"
      "unat (size_bytes (globaldev st)) < unat (sector_offset bi) + segments_len pre' + unat (bv_len b')"
      using first_segment_out_of_store[of "bi_io_vec bi" "globaldev st" "unat (sector_offset bi)"] by blast
    then have "make_request_outcome kmap st bi m
        = OutOfStore (mem (xiprd_make_request kmap st (bi\<lparr>bi_io_vec := pre'\<rparr>) m))"
      by (rule outcome_stops)
    with p show "\<exists>pre' b' post'. bi_io_vec bi = pre' @ b' # post' \<and>
         (pre' \<noteq> [] \<longrightarrow> unat (sector_offset bi) + segments_len pre' \<le> unat (size_bytes (globaldev st))) \<and>
         unat (size_bytes (globaldev st)) < unat (sector_offset bi) + segments_len pre' + unat (bv_len b') \<and>
         make_request_outcome kmap st bi m
           = OutOfStore (mem (xiprd_make_request kmap st (bi\<lparr>bi_io_vec := pre'\<rparr>) m))"
      by blast
  qed
  show ?thesis by (intro conjI one two three)
qed

text \<open>
  On the 1 MiB device, a write of two 512-byte segments at sector 2047: the first
  segment is copied as in a request for it alone, the second leaves the store.
\<close>

theorem out_of_range_request_not_rejected_witness:
  "make_request_outcome linear_kmap ready_module overrun_bio ab_memory
     = OutOfStore (mem (xiprd_make_request linear_kmap ready_module
         (overrun_bio\<lparr>bi_io_vec := [\<lparr>bv_page = 512, bv_len = 512, bv_offset = 0\<rparr>]\<rparr>) ab_memory))"
proof -
  let ?b = "\<lparr>bv_page = 512, bv_len = 512, bv_offset = 0\<rparr> :: bio_vec"
  have h: "bi_io_vec overrun_bio = [?b] @ ?b # [] \<and>
    ([?b] \<noteq> [] \<longrightarrow> unat (sector_offset overrun_bio) + segments_len [?b]
        \<le> unat (size_bytes (globaldev ready_module))) \<and>
    unat (size_bytes (globaldev ready_module))
      < unat (sector_offset overrun_bio) + segments_len [?b] + unat (bv_len ?b)"
    by (simp add: overrun_bio_def ready_module_dev segments_len_def sector_offset_def KERNEL_SHIFT_def)
  from out_of_range_request_not_rejected[of linear_kmap ready_module overrun_bio ab_memory "[?b]" ?b "[]"] h
  show ?thesis by blast
qed

text \<open>
  The claim as first stated fails at that request: it addresses 512 bytes past the
  capacity, no error is returned, and when the second copy leaves the store, the store
  byte at offset 1048064 has already changed from 0 to \<open>0xAB\<close>.
\<close>

theorem overrun_write_partial_copy:
  "unat (size_bytes (globaldev ready_module))
     < unat (bi_sector overrun_bio) * 512 + segments_len (bi_io_vec overrun_bio) \<and>
   (1048064 :: nat) < unat (size_bytes (globaldev ready_module)) \<and>
   ab_memory (ramdisk (globaldev ready_module) + 1048064) = 0 \<and>
   (case make_request_outcome linear_kmap ready_module overrun_bio ab_memory of
      Completed r \<Rightarrow> False
    | OutOfStore m' \<Rightarrow> m' (ramdisk (globaldev ready_module) + 1048064) = 0xAB)"
  by (simp add: make_request_outcome_def ready_module_dev overrun_bio_def sector_offset_def
      KERNEL_SHIFT_def copy_segment_def Let_def memcpy_def linear_kmap_def ab_memory_def
      segments_len_def)




section \<open>Initialisation\<close>

text \<open>
  Claim C3, at a run in which \<^verbatim>\<open>alloc_disk\<close> fails after the store was allocated
  and the driver registered: \<^verbatim>\<open>xiprd_init\<close> returns \<^verbatim>\<open>-ENOMEM\<close> and frees the
  store, and never unregisters the driver.
\<close>

theorem xiprd_init_alloc_disk_failure_leaks_driver:
  "fst (xiprd_init no_disk_host default_module) = - ENOMEM \<and>
   snd (snd (xiprd_init no_disk_host default_module)) =
     [Vmalloc 1073741824 0xFFFFC90000000000, RegisterBlkdev 0 ''xiprd'' 254, AllocDisk 16 False,
      Vfree 0xFFFFC90000000000] \<and>
   acquired (snd (snd (xiprd_init no_disk_host default_module))) = [Store, Driver] \<and>
   released (snd (snd (xiprd_init no_disk_host default_module))) = [Store]"
  by (simp add: no_disk_host_def init_eval_defs err_out_def)

text \<open>
  When \<^verbatim>\<open>blk_alloc_queue\<close> fails, the store is freed first, the queue that was never
  allocated is cleaned up, and major number 0 is unregistered instead of the one
  assigned.
\<close>

lemma xiprd_init_queue_failure_trace:
  "fst (xiprd_init no_queue_host default_module) = - ENOMEM \<and>
   snd (snd (xiprd_init no_queue_host default_module)) =
     [Vmalloc 1073741824 0xFFFFC90000000000, RegisterBlkdev 0 ''xiprd'' 254, AllocDisk 16 True,
      BlkAllocQueue False, Vfree 0xFFFFC90000000000, DelGendisk, PutDisk, BlkCleanupQueue False,
      UnregisterBlkdev 0 ''xiprd''] \<and>
   acquired (snd (snd (xiprd_init no_queue_host default_module))) = [Store, Driver, Disk] \<and>
   released (snd (snd (xiprd_init no_queue_host default_module))) = [Store, Disk, Queue, Driver]"
  by (simp add: no_queue_host_def init_eval_defs err_out_def)

text \<open>
  Claim C6, amended. \<^verbatim>\<open>xiprd_init\<close> does not validate its configuration: for every
  sector size and sector count, its first call to the host is the allocation of the
  store, of \<^verbatim>\<open>(u64)num_sectors * (u64)sector_size\<close> bytes (modulo \<open>2 ^ 64\<close>). When
  that allocation returns \<^verbatim>\<open>NULL\<close>, it returns \<^verbatim>\<open>-ENOMEM\<close> having made no other
  call: nothing was acquired and nothing is released.
\<close>

theorem xiprd_init_allocates_unvalidated:
  "take 1 (snd (snd (xiprd_init h st))) =
     [Vmalloc (num_sectors st * scast (sector_size st))
        (vmalloc_ret h (num_sectors st * scast (sector_size st)))] \<and>
   (vmalloc_ret h (num_sectors st * scast (sector_size st)) = 0 \<longrightarrow>
      fst (xiprd_init h st) = - ENOMEM \<and>
      snd (snd (xiprd_init h st)) = [Vmalloc (num_sectors st * scast (sector_size st)) 0] \<and>
      acquired (snd (snd (xiprd_init h st))) = [] \<and>
      released (snd (snd (xiprd_init h st))) = [])"
  by (simp add: xiprd_init_def init_fail_def err_out_def zero_dev_def Let_def
      split: option.split)

text \<open>With a sector size of 0 the store allocation is attempted, for 0 bytes.\<close>

theorem xiprd_init_allocates_unvalidated_witness:
  "fst (xiprd_init good_host zero_size_module) = - ENOMEM \<and>
   snd (snd (xiprd_init good_host zero_size_module)) = [Vmalloc 0 0]"
proof -
  have "vmalloc_ret good_host (num_sectors zero_size_module * scast (sector_size zero_size_module)) = 0"
    by (simp add: good_host_def zero_size_module_def default_module_def)
  with xiprd_init_allocates_unvalidated[of good_host zero_size_module] show ?thesis
    by (simp add: zero_size_module_def default_module_def)
qed

text \<open>
  The claim as first stated fails. With a sector size of 0 the allocation is attempted
  and the error is \<^verbatim>\<open>-ENOMEM\<close>; with a sector size of -512 and a sector count of
  \<open>2 ^ 64 - 2\<close> the size wraps to 1024 bytes and initialisation succeeds.
\<close>

theorem xiprd_init_no_configuration_check:
  "sint (sector_size zero_size_module) \<le> 0 \<and>
   fst (xiprd_init good_host zero_size_module) = - ENOMEM \<and>
   snd (snd (xiprd_init good_host zero_size_module)) = [Vmalloc 0 0] \<and>
   sint (sector_size negative_size_module) \<le> 0 \<and>
   fst (xiprd_init good_host negative_size_module) = 0 \<and>
   snd (snd (xiprd_init good_host negative_size_module)) =
     [Vmalloc 1024 0xFFFFC90000000000, RegisterBlkdev 0 ''xiprd'' 254, AllocDisk 16 True,
      BlkAllocQueue True, AddDisk]"
  by (simp add: zero_size_module_def negative_size_module_def init_eval_defs err_out_def)

end
